theory Spec2Isabelle
  imports Complex_Main "HOL-Library.AList" "HOL-Library.Multiset"
begin

section \<open>Data model (types.ts)\<close>

text \<open>
  JavaScript numbers that hold counters, priorities and millisecond clock readings are
  modelled as \<open>int\<close>. \<open>Date.now()\<close> is an explicit argument \<open>now\<close> of every operation
  that reads the clock; the readings within one operation are taken to be equal. The
  \<open>resolve\<close>/\<open>reject\<close> pair stored in a request is the identity of the promise it
  settles: an index into the list of all promises created so far. The fields \<open>body\<close>,
  \<open>headers\<close> and \<open>isGlobal\<close> of a request are read by none of the functions below and
  are left out.
\<close>

datatype js_error =
    QueueFull
  | InvalidPriority int
  | QueueTimeout
  | QueueCleared
  | BucketCleared string
  | OrchestratorShutdown
  | InvalidURL
  | RequestTimeout int
  | HttpError int "string option"
  | RetriesExhausted int
  | TransportError "string option" string

text \<open>The body of a response (\<open>response.data\<close>), which is also what a request resolves to.\<close>

record ResponseData =
  data_message :: "string option"
  retry_after :: "int option"
  payload :: string

datatype settlement = Pending | Resolved "ResponseData option" | Rejected js_error

type_synonym promises = "settlement list"

record QueuedRequest =
  request_id :: string
  url :: string
  request_method :: string
  priority :: int
  timestamp :: int
  retryCount :: int
  maxRetries :: int
  timeout :: "int option"
  bucketId :: "string option"
  settles :: nat

text \<open>
  \<open>new Promise(...)\<close> appends to the list of promises: the new promise is \<open>length ps\<close>.
  Calling \<open>resolve\<close> or \<open>reject\<close> changes a pending promise and no other.
\<close>

definition settle :: "nat \<Rightarrow> settlement \<Rightarrow> promises \<Rightarrow> promises" where
  "settle p s ps = (if p < length ps \<and> ps ! p = Pending then ps[p := s] else ps)"

definition reject_all :: "js_error \<Rightarrow> QueuedRequest list \<Rightarrow> promises \<Rightarrow> promises" where
  "reject_all e rs ps = fold (\<lambda>r. settle (settles r) (Rejected e)) rs ps"

section \<open>PriorityQueue (priorityQueue.ts)\<close>

text \<open>
  \<open>queues\<close> is the \<open>Map\<close> from priority to array, as an association list in insertion
  order; \<open>Map.get\<close> is \<open>map_of\<close>, writing through the array reference held by the map is
  \<open>AList.update\<close>, and \<open>forEach\<close> visits the entries from left to right.
\<close>

record PriorityQueue =
  queues :: "(int \<times> QueuedRequest list) list"
  processing :: bool
  maxSize :: int
  totalSize :: int

definition tiers :: "int list" where
  "tiers = [0, 1, 2, 3, 4]"

definition PriorityQueue_new :: "int \<Rightarrow> PriorityQueue" where
  "PriorityQueue_new m =
     \<lparr>queues = map (\<lambda>p. (p, [])) tiers, processing = False, maxSize = m, totalSize = 0\<rparr>"

text \<open>
  \<open>queue.sort((a, b) => a.timestamp - b.timestamp)\<close>: ascending timestamps, and
  \<open>Array.prototype.sort\<close> is stable, so equal timestamps keep their order.
\<close>

definition sort_by_timestamp :: "QueuedRequest list \<Rightarrow> QueuedRequest list" where
  "sort_by_timestamp queue = sort_key timestamp queue"

definition enqueue ::
  "QueuedRequest \<Rightarrow> PriorityQueue \<times> promises \<Rightarrow> nat \<times> PriorityQueue \<times> promises" where
  "enqueue request st =
     (case st of (q, ps) \<Rightarrow>
        if totalSize q \<ge> maxSize q then
          (length ps, q, ps @ [Rejected QueueFull])
        else
          (case map_of (queues q) (priority request) of
             Some queue \<Rightarrow>
               (length ps,
                q\<lparr>queues := AList.update (priority request)
                     (sort_by_timestamp (queue @ [request\<lparr>settles := length ps\<rparr>])) (queues q),
                  totalSize := totalSize q + 1\<rparr>,
                ps @ [Pending])
           | None \<Rightarrow>
               (length ps, q, ps @ [Rejected (InvalidPriority (priority request))])))"

text \<open>
  The request object after \<open>enqueue\<close>: unless the queue was full, its \<open>resolve\<close> and
  \<open>reject\<close> have been overwritten with those of the new promise.
\<close>

definition attached :: "QueuedRequest \<Rightarrow> PriorityQueue \<times> promises \<Rightarrow> QueuedRequest" where
  "attached request st =
     (case st of (q, ps) \<Rightarrow>
        if totalSize q \<ge> maxSize q then request else request\<lparr>settles := length ps\<rparr>)"

fun dequeue_from :: "int list \<Rightarrow> PriorityQueue \<Rightarrow> QueuedRequest option \<times> PriorityQueue" where
  "dequeue_from [] q = (None, q)"
| "dequeue_from (p # rest) q =
     (case map_of (queues q) p of
        Some (request # queue) \<Rightarrow>
          (Some request, q\<lparr>queues := AList.update p queue (queues q), totalSize := totalSize q - 1\<rparr>)
      | _ \<Rightarrow> dequeue_from rest q)"

definition dequeue :: "PriorityQueue \<Rightarrow> QueuedRequest option \<times> PriorityQueue" where
  "dequeue q = dequeue_from [0, 1, 2, 3, 4] q"

definition getQueueSize :: "PriorityQueue \<Rightarrow> int \<Rightarrow> int" where
  "getQueueSize q p = (case map_of (queues q) p of Some queue \<Rightarrow> int (length queue) | None \<Rightarrow> 0)"

definition getTotalSize :: "PriorityQueue \<Rightarrow> int" where
  "getTotalSize q = totalSize q"

text \<open>
  The backwards loop \<open>for (let i = queue.length - 1; i >= 0; i--)\<close> that splices out every
  element satisfying \<open>P\<close>: the first component is the array afterwards, the second the
  removed elements in the order in which the loop met them (from the back).
\<close>

fun splice_loop ::
  "(QueuedRequest \<Rightarrow> bool) \<Rightarrow> nat \<Rightarrow> QueuedRequest list \<Rightarrow> QueuedRequest list \<times> QueuedRequest list" where
  "splice_loop P 0 queue = (queue, [])"
| "splice_loop P (Suc i) queue =
     (if i < length queue \<and> P (queue ! i) then
        (case splice_loop P i (take i queue @ drop (Suc i) queue) of
           (queue', removed) \<Rightarrow> (queue', (queue ! i) # removed))
      else splice_loop P i queue)"

definition splice_all ::
  "(QueuedRequest \<Rightarrow> bool) \<Rightarrow> QueuedRequest list \<Rightarrow> QueuedRequest list \<times> QueuedRequest list" where
  "splice_all P queue = splice_loop P (length queue) queue"

text \<open>
  \<open>removeExpired\<close> and \<open>clearBucket\<close> run that loop over every array of the map, in
  map order; each removed request is rejected and counted, and the total is decremented
  once per removed request.
\<close>

definition removeExpired ::
  "int \<Rightarrow> int \<Rightarrow> PriorityQueue \<times> promises \<Rightarrow> int \<times> PriorityQueue \<times> promises" where
  "removeExpired timeoutMs now st =
     (case st of (q, ps) \<Rightarrow>
        let expired = (\<lambda>request. now - timestamp request > timeoutMs);
            gone = concat (map (\<lambda>(p, queue). snd (splice_all expired queue)) (queues q))
        in (int (length gone),
            q\<lparr>queues := map (\<lambda>(p, queue). (p, fst (splice_all expired queue))) (queues q),
              totalSize := totalSize q - int (length gone)\<rparr>,
            reject_all QueueTimeout gone ps))"

definition clear :: "PriorityQueue \<times> promises \<Rightarrow> PriorityQueue \<times> promises" where
  "clear st =
     (case st of (q, ps) \<Rightarrow>
        (q\<lparr>queues := map (\<lambda>(p, queue). (p, [])) (queues q), totalSize := 0\<rparr>,
         reject_all QueueCleared (concat (map snd (queues q))) ps))"

definition clearBucket ::
  "string \<Rightarrow> PriorityQueue \<times> promises \<Rightarrow> int \<times> PriorityQueue \<times> promises" where
  "clearBucket b st =
     (case st of (q, ps) \<Rightarrow>
        let tagged = (\<lambda>request. bucketId request = Some b);
            gone = concat (map (\<lambda>(p, queue). snd (splice_all tagged queue)) (queues q))
        in (int (length gone),
            q\<lparr>queues := map (\<lambda>(p, queue). (p, fst (splice_all tagged queue))) (queues q),
              totalSize := totalSize q - int (length gone)\<rparr>,
            reject_all (BucketCleared b) gone ps))"

text \<open>
  \<open>promoteRequests\<close>: phase one splices the tagged requests out of every tier below the
  new priority; phase two pushes them onto the target tier, if the map has one, and sorts
  it. When the target tier does not exist the removed requests are not put back.
\<close>

definition promoteRequests :: "string \<Rightarrow> int \<Rightarrow> PriorityQueue \<Rightarrow> int \<times> PriorityQueue" where
  "promoteRequests b newPriority q =
     (let tagged = (\<lambda>request. bucketId request = Some b);
          requestsToMove = concat (map (\<lambda>(p, queue).
             if p > newPriority then snd (splice_all tagged queue) else []) (queues q));
          qs1 = map (\<lambda>(p, queue).
             (p, if p > newPriority then fst (splice_all tagged queue) else queue)) (queues q);
          q1 = q\<lparr>queues := qs1, totalSize := totalSize q - int (length requestsToMove)\<rparr>
      in case map_of qs1 newPriority of
           Some targetQueue \<Rightarrow>
             (int (length requestsToMove),
              q1\<lparr>queues := AList.update newPriority
                     (sort_by_timestamp
                        (targetQueue @ map (\<lambda>request. request\<lparr>priority := newPriority\<rparr>) requestsToMove))
                     qs1,
                 totalSize := totalSize q1 + int (length requestsToMove)\<rparr>)
         | None \<Rightarrow> (0, q1))"

section \<open>Strings and error messages\<close>

definition startsWith :: "string \<Rightarrow> string \<Rightarrow> bool" where
  "startsWith s pat = (take (length pat) s = pat)"

fun str_includes :: "string \<Rightarrow> string \<Rightarrow> bool" where
  "str_includes [] pat = (pat = [])"
| "str_includes (c # cs) pat = (startsWith (c # cs) pat \<or> str_includes cs pat)"

text \<open>The decimal text a template literal produces for an integer.\<close>

fun digits :: "nat \<Rightarrow> string" where
  "digits n = (if n < 10 then [''0123456789'' ! n]
               else digits (n div 10) @ [''0123456789'' ! (n mod 10)])"

declare digits.simps [simp del]

definition show_int :: "int \<Rightarrow> string" where
  "show_int i = (if i < 0 then CHR ''-'' # digits (nat (- i)) else digits (nat i))"

text \<open>
  \<open>error.message\<close> and \<open>error.code\<close> of every error the subsystem creates or receives.
  \<open>HttpError\<close> is built by \<open>executeRequest\<close> from the status and
  \<open>response.data?.message || 'Unknown error'\<close>; \<open>TransportError\<close> is whatever the
  transport function throws.
\<close>

fun message :: "js_error \<Rightarrow> string" where
  "message QueueFull = ''Rate limit queue is full''"
| "message (InvalidPriority p) = ''Invalid priority level: '' @ show_int p"
| "message QueueTimeout = ''Request timed out in queue''"
| "message QueueCleared = ''Queue cleared''"
| "message (BucketCleared b) = ''Bucket '' @ b @ '' rate limited''"
| "message OrchestratorShutdown = ''Rate limit orchestrator is shutdown''"
| "message InvalidURL = ''Invalid URL''"
| "message (RequestTimeout t) = ''Request timeout after '' @ show_int t @ ''ms''"
| "message (HttpError st m) =
     ''HTTP '' @ show_int st @ '': '' @
       (case m of None \<Rightarrow> ''Unknown error'' | Some t \<Rightarrow> if t = [] then ''Unknown error'' else t)"
| "message (RetriesExhausted n) = ''Request failed after '' @ show_int n @ '' retries''"
| "message (TransportError c m) = m"

fun code :: "js_error \<Rightarrow> string option" where
  "code (TransportError c m) = c"
| "code InvalidURL = Some ''ERR_INVALID_URL''"
| "code _ = None"

section \<open>MemoryRateLimitStore (store.ts)\<close>

record RateLimitInfo =
  limit :: int
  remaining :: int
  resetAfter :: int
  info_maxRetries :: int
  retryAfter :: int
  global :: bool
  bucket :: "string option"

record RateLimitBucket =
  bucket_id :: string
  bucket_limit :: int
  bucket_remaining :: int
  resetAt :: int
  bucket_resetAfter :: int
  bucket_maxRetries :: int
  lastUsed :: int
  requests :: "QueuedRequest list"

record RateLimitMetrics =
  totalRequests :: int
  successfulRequests :: int
  rateLimitedRequests :: int
  failedRequests :: int
  averageResponseTime :: real
  bucketCount :: int
  queueSize :: int
  globalRateLimits :: int
  lastReset :: int

datatype metric_key =
    TotalRequests | SuccessfulRequests | RateLimitedRequests | FailedRequests
  | AverageResponseTime | BucketCount | QueueSize | GlobalRateLimits | LastReset

text \<open>
  \<open>buckets\<close> is the \<open>Map\<close> of the store in insertion order (its keys are distinct, and
  \<open>buckets.size\<close> is its length); \<open>store_cleanupInterval\<close> says whether the sweep timer
  is installed.
\<close>

record MemoryRateLimitStore =
  buckets :: "(string \<times> RateLimitBucket) list"
  globalLimit :: "RateLimitInfo option"
  metrics :: RateLimitMetrics
  store_cleanupInterval :: bool

definition fresh_metrics :: "int \<Rightarrow> int \<Rightarrow> RateLimitMetrics" where
  "fresh_metrics n now =
     \<lparr>totalRequests = 0, successfulRequests = 0, rateLimitedRequests = 0, failedRequests = 0,
      averageResponseTime = 0, bucketCount = n, queueSize = 0, globalRateLimits = 0,
      lastReset = now\<rparr>"

definition MemoryRateLimitStore_new :: "int \<Rightarrow> MemoryRateLimitStore" where
  "MemoryRateLimitStore_new now =
     \<lparr>buckets = [], globalLimit = None, metrics = fresh_metrics 0 now,
      store_cleanupInterval = True\<rparr>"

definition getBucket ::
  "int \<Rightarrow> string \<Rightarrow> MemoryRateLimitStore \<Rightarrow> RateLimitBucket option \<times> MemoryRateLimitStore" where
  "getBucket now b s =
     (case map_of (buckets s) b of
        None \<Rightarrow> (None, s)
      | Some bkt \<Rightarrow>
          if now > resetAt bkt then (None, s\<lparr>buckets := AList.delete b (buckets s)\<rparr>)
          else (Some bkt, s))"

definition setBucket ::
  "int \<Rightarrow> string \<Rightarrow> RateLimitBucket \<Rightarrow> MemoryRateLimitStore \<Rightarrow> MemoryRateLimitStore" where
  "setBucket now b bkt s =
     (let bs = AList.update b (bkt\<lparr>lastUsed := now\<rparr>) (buckets s)
      in s\<lparr>buckets := bs, metrics := (metrics s)\<lparr>bucketCount := int (length bs)\<rparr>\<rparr>)"

definition deleteBucket :: "string \<Rightarrow> MemoryRateLimitStore \<Rightarrow> MemoryRateLimitStore" where
  "deleteBucket b s =
     (let bs = AList.delete b (buckets s)
      in s\<lparr>buckets := bs, metrics := (metrics s)\<lparr>bucketCount := int (length bs)\<rparr>\<rparr>)"

definition getGlobalLimit ::
  "int \<Rightarrow> MemoryRateLimitStore \<Rightarrow> RateLimitInfo option \<times> MemoryRateLimitStore" where
  "getGlobalLimit now s =
     (case globalLimit s of
        None \<Rightarrow> (None, s)
      | Some g \<Rightarrow> if now > resetAfter g then (None, s\<lparr>globalLimit := None\<rparr>) else (Some g, s))"

definition setGlobalLimit :: "int \<Rightarrow> RateLimitInfo \<Rightarrow> MemoryRateLimitStore \<Rightarrow> MemoryRateLimitStore" where
  "setGlobalLimit now info s =
     s\<lparr>globalLimit := Some (info\<lparr>resetAfter := now + resetAfter info\<rparr>),
       metrics := (metrics s)\<lparr>globalRateLimits := globalRateLimits (metrics s) + 1\<rparr>\<rparr>"

fun bump :: "metric_key \<Rightarrow> RateLimitMetrics \<Rightarrow> RateLimitMetrics" where
  "bump TotalRequests m = m\<lparr>totalRequests := totalRequests m + 1\<rparr>"
| "bump SuccessfulRequests m = m\<lparr>successfulRequests := successfulRequests m + 1\<rparr>"
| "bump RateLimitedRequests m = m\<lparr>rateLimitedRequests := rateLimitedRequests m + 1\<rparr>"
| "bump FailedRequests m = m\<lparr>failedRequests := failedRequests m + 1\<rparr>"
| "bump GlobalRateLimits m = m\<lparr>globalRateLimits := globalRateLimits m + 1\<rparr>"
| "bump _ m = m"

definition incrementMetric :: "metric_key \<Rightarrow> MemoryRateLimitStore \<Rightarrow> MemoryRateLimitStore" where
  "incrementMetric k s = s\<lparr>metrics := bump k (metrics s)\<rparr>"

definition resetMetrics :: "int \<Rightarrow> MemoryRateLimitStore \<Rightarrow> MemoryRateLimitStore" where
  "resetMetrics now s = s\<lparr>metrics := fresh_metrics (int (length (buckets s))) now\<rparr>"

definition destroy :: "int \<Rightarrow> MemoryRateLimitStore \<Rightarrow> MemoryRateLimitStore" where
  "destroy now s =
     resetMetrics now (s\<lparr>store_cleanupInterval := False, buckets := [], globalLimit := None\<rparr>)"

text \<open>
  A plain object (\<open>{}\<close>) with string keys, as the list of its own properties in the order
  in which \<open>Object.entries\<close> lists them: the keys that are array indices (canonical
  decimal numerals below \<open>2^32 - 1\<close>) in ascending numeric order, then the other keys in
  the order of their first assignment. The assignment \<open>obj[k] = v\<close> of an object \<open>v\<close>
  overwrites an existing property in place and otherwise creates one; for the key
  \<open>__proto__\<close> it sets the prototype instead and creates no property.
\<close>

definition digit_of :: "char \<Rightarrow> nat" where
  "digit_of c = length (takeWhile (\<lambda>d. d \<noteq> c) ''0123456789'')"

definition decimal :: "string \<Rightarrow> nat" where
  "decimal t = foldl (\<lambda>n c. 10 * n + digit_of c) 0 t"

definition is_array_index :: "string \<Rightarrow> bool" where
  "is_array_index k = (k \<noteq> [] \<and> digits (decimal k) = k \<and> decimal k < 4294967295)"

definition comes_before :: "string \<Rightarrow> string \<Rightarrow> bool" where
  "comes_before k k' =
     (if is_array_index k then (if is_array_index k' then decimal k < decimal k' else True)
      else False)"

fun insert_property :: "string \<Rightarrow> 'v \<Rightarrow> (string \<times> 'v) list \<Rightarrow> (string \<times> 'v) list" where
  "insert_property k v [] = [(k, v)]"
| "insert_property k v (e # rest) =
     (if comes_before k (fst e) then (k, v) # e # rest else e # insert_property k v rest)"

definition object_assign :: "string \<Rightarrow> 'v \<Rightarrow> (string \<times> 'v) list \<Rightarrow> (string \<times> 'v) list" where
  "object_assign k v obj =
     (if k = ''__proto__'' then obj
      else (case map_of obj k of
              Some old \<Rightarrow> AList.update k v obj
            | None \<Rightarrow> insert_property k v obj))"

text \<open>
  The exported document. \<open>exp_buckets\<close> is the plain object built by the assignments
  \<open>buckets[id] = { ...bucket }\<close> in the order of the map; \<open>importState\<close> reads it through
  \<open>Object.entries\<close> and puts every entry into the emptied map.
\<close>

record StoreState =
  exp_buckets :: "(string \<times> RateLimitBucket) list"
  exp_globalLimit :: "RateLimitInfo option"
  exp_metrics :: RateLimitMetrics

definition exportState :: "MemoryRateLimitStore \<Rightarrow> StoreState" where
  "exportState s =
     \<lparr>exp_buckets = fold (\<lambda>(b, bkt) obj. object_assign b bkt obj) (buckets s) [],
      exp_globalLimit = globalLimit s,
      exp_metrics = metrics s\<rparr>"

definition importState :: "StoreState \<Rightarrow> MemoryRateLimitStore \<Rightarrow> MemoryRateLimitStore" where
  "importState st s =
     (let bs = fold (\<lambda>(b, bkt) m. AList.update b bkt m) (exp_buckets st) []
      in s\<lparr>buckets := bs,
           globalLimit := exp_globalLimit st,
           metrics := (exp_metrics st)\<lparr>bucketCount := int (length bs)\<rparr>\<rparr>)"

section \<open>Configuration (config.ts)\<close>

definition defaultLimit :: int where "defaultLimit = 5"
definition defaultResetAfter :: int where "defaultResetAfter = 5000"
definition default_maxRetries :: int where "default_maxRetries = 3"
definition maxQueueSize :: int where "maxQueueSize = 1000"
definition default_requestTimeout :: int where "default_requestTimeout = 30000"

text \<open>The \<open>defaultLimit\<close> entries of \<open>ENDPOINT_RATE_LIMITS\<close>.\<close>

definition ENDPOINT_RATE_LIMITS :: "(string \<times> int) list" where
  "ENDPOINT_RATE_LIMITS =
     [(''POST/channels/:channel_id/messages'', 5),
      (''DELETE/channels/:channel_id/messages/:message_id'', 5),
      (''POST/guilds/:guild_id/bans/:user_id'', 5),
      (''POST/channels/:channel_id/typing'', 5),
      (''GET/gateway/bot'', 1),
      (''POST/interactions/:interaction_id/:interaction_token/callback'', 1),
      (''POST/channels/:channel_id/messages/bulk-delete'', 1),
      (''GET/guilds/:guild_id/audit-logs'', 10)]"

text \<open>\<open>getRateLimitConfig(endpoint).defaultLimit\<close>.\<close>

definition getRateLimitConfig_defaultLimit :: "string \<Rightarrow> int" where
  "getRateLimitConfig_defaultLimit endpoint =
     (case map_of ENDPOINT_RATE_LIMITS endpoint of Some l \<Rightarrow> l | None \<Rightarrow> defaultLimit)"

text \<open>
  Functions of the JavaScript platform that are not modelled further: \<open>parseInt\<close>, and
  \<open>new URL(u).pathname\<close> for a string \<open>u\<close> that contains a colon (\<open>None\<close> when the
  constructor throws).
\<close>

record platform =
  parseInt :: "string \<Rightarrow> int"
  pathname :: "string \<Rightarrow> string option"

text \<open>A string in a condition: \<open>undefined\<close>, \<open>null\<close> and the empty string are falsy.\<close>

fun truthy :: "string option \<Rightarrow> bool" where
  "truthy None = False"
| "truthy (Some t) = (t \<noteq> [])"

definition header_or_zero :: "(string \<Rightarrow> string option) \<Rightarrow> string \<Rightarrow> string" where
  "header_or_zero hs k = (if truthy (hs k) then the (hs k) else ''0'')"

definition extractBucketId :: "(string \<Rightarrow> string option) \<Rightarrow> string option" where
  "extractBucketId hs =
     (if hs ''x-ratelimit-global'' = Some ''true'' then Some ''global''
      else if truthy (hs ''x-ratelimit-bucket'') then hs ''x-ratelimit-bucket'' else None)"

text \<open>
  \<open>extractRateLimitInfo\<close>. Its result has no \<open>maxRetries\<close> or \<open>retryAfter\<close>; both callers
  add them, so they are arguments here.
\<close>

definition extractRateLimitInfo ::
  "platform \<Rightarrow> (string \<Rightarrow> string option) \<Rightarrow> int \<Rightarrow> int \<Rightarrow> RateLimitInfo" where
  "extractRateLimitInfo pf hs mr ra =
     \<lparr>limit = parseInt pf (header_or_zero hs ''x-ratelimit-limit''),
      remaining = parseInt pf (header_or_zero hs ''x-ratelimit-remaining''),
      resetAfter = parseInt pf (header_or_zero hs ''x-ratelimit-reset-after''),
      info_maxRetries = mr,
      retryAfter = ra,
      global = (hs ''x-ratelimit-global'' = Some ''true''),
      bucket = extractBucketId hs\<rparr>"

section \<open>BucketManager\<close>

text \<open>
  \<open>bucketManager.ts\<close> is not among the sources. The three methods that the middleware and
  the orchestrator call are parameters: each reads the clock, the store and its arguments
  and gives back its result and the store.
\<close>

record BucketManager =
  bm_isRateLimited :: "int \<Rightarrow> string \<Rightarrow> MemoryRateLimitStore \<Rightarrow> bool \<times> MemoryRateLimitStore"
  bm_consumeRequest :: "int \<Rightarrow> string \<Rightarrow> MemoryRateLimitStore \<Rightarrow> bool \<times> MemoryRateLimitStore"
  bm_handleRateLimit :: "int \<Rightarrow> string \<Rightarrow> RateLimitInfo \<Rightarrow> MemoryRateLimitStore \<Rightarrow> MemoryRateLimitStore"

text \<open>
  Modelled from the spec: \<open>BucketManager.getBucket(id, defaultLimit?, defaultResetAfter?)\<close>
  of the missing \<open>bucketManager.ts\<close>, "create-or-fetch": a bucket is "created lazily on
  first reference with a default limit/window", full (\<open>remaining = limit\<close>), its window
  ending \<open>resetAfter\<close> after the creation; it is read through the store, for which "a
  bucket read past its resetAt is treated as absent".
\<close>

definition fresh_bucket :: "int \<Rightarrow> string \<Rightarrow> int \<Rightarrow> int \<Rightarrow> RateLimitBucket" where
  "fresh_bucket now b n w =
     \<lparr>bucket_id = b, bucket_limit = n, bucket_remaining = n, resetAt = now + w,
      bucket_resetAfter = w, bucket_maxRetries = default_maxRetries, lastUsed = now,
      requests = []\<rparr>"

definition BucketManager_getBucket ::
  "int \<Rightarrow> string \<Rightarrow> int \<Rightarrow> int \<Rightarrow> MemoryRateLimitStore \<Rightarrow> RateLimitBucket \<times> MemoryRateLimitStore" where
  "BucketManager_getBucket now b n w s =
     (case getBucket now b s of
        (Some bkt, s') \<Rightarrow> (bkt, s')
      | (None, s') \<Rightarrow> (fresh_bucket now b n w, setBucket now b (fresh_bucket now b n w) s'))"

text \<open>
  Modelled from the spec: \<open>BucketManager.consumeRequest(id)\<close> of the missing
  \<open>bucketManager.ts\<close>: it "decrements remaining by one and returns false without mutating
  state if no tokens remain (no negative remaining)". The bucket is fetched (or created
  with the configured defaults) by \<open>getBucket\<close> and written back through the store.
\<close>

definition BucketManager_consumeRequest ::
  "int \<Rightarrow> string \<Rightarrow> MemoryRateLimitStore \<Rightarrow> bool \<times> MemoryRateLimitStore" where
  "BucketManager_consumeRequest now b s =
     (case BucketManager_getBucket now b defaultLimit defaultResetAfter s of
        (bkt, s') \<Rightarrow>
          if bucket_remaining bkt \<le> 0 then (False, s')
          else (True, setBucket now b (bkt\<lparr>bucket_remaining := bucket_remaining bkt - 1\<rparr>) s'))"

section \<open>DiscordRateLimitMiddleware (middleware.ts)\<close>

record HttpResponse =
  status :: int
  headers :: "string \<Rightarrow> string option"
  data :: "ResponseData option"

text \<open>
  What \<open>Promise.race([this.httpClient(request), timeoutPromise])\<close> comes to: a response,
  an error thrown by the transport, or the timeout promise rejecting first. What the
  transport function itself does to the store (the orchestrator wraps it so that it
  reports rate-limit headers through \<open>handleRateLimit\<close>) is not part of the functions
  below.
\<close>

datatype transport = Responds HttpResponse | Throws js_error | Hangs

text \<open>
  How the promise of an \<open>async\<close> function ends: a value, an error, or the adoption of the
  promise that \<open>queue.enqueue\<close> returned (and which is still pending).
\<close>

datatype exec_outcome = Returned "ResponseData option" | Threw js_error | Requeued nat

text \<open>How \<open>execute\<close> ends: rejected on the way in, waiting in the queue, or sent to the transport.\<close>

datatype admission = Failed js_error | Queued nat | Dispatched QueuedRequest

record Middleware =
  store :: MemoryRateLimitStore
  queue :: PriorityQueue
  mw_processing :: bool
  requestTimeout :: int

definition Middleware_new :: "int \<Rightarrow> Middleware" where
  "Middleware_new now =
     \<lparr>store = MemoryRateLimitStore_new now, queue = PriorityQueue_new maxQueueSize,
      mw_processing = True, requestTimeout = default_requestTimeout\<rparr>"

definition isRateLimited ::
  "BucketManager \<Rightarrow> int \<Rightarrow> string \<Rightarrow> Middleware \<Rightarrow> bool \<times> Middleware" where
  "isRateLimited bm now b m =
     (case getGlobalLimit now (store m) of
        (g, s) \<Rightarrow>
          if (case g of Some gl \<Rightarrow> now < resetAfter gl | None \<Rightarrow> False) then (True, m\<lparr>store := s\<rparr>)
          else (case bm_isRateLimited bm now b s of (r, s') \<Rightarrow> (r, m\<lparr>store := s'\<rparr>)))"

definition updateBucket ::
  "BucketManager \<Rightarrow> int \<Rightarrow> string \<Rightarrow> RateLimitInfo \<Rightarrow> Middleware \<Rightarrow> Middleware" where
  "updateBucket bm now b info m = m\<lparr>store := bm_handleRateLimit bm now b info (store m)\<rparr>"

definition count :: "metric_key \<Rightarrow> Middleware \<Rightarrow> Middleware" where
  "count k m = m\<lparr>store := incrementMetric k (store m)\<rparr>"

text \<open>The regular expressions of \<open>extractUrlPattern\<close>: literal text and \<open>\d+\<close>.\<close>

datatype tok = Lit string | Digits

definition is_digit :: "char \<Rightarrow> bool" where
  "is_digit c = (c \<in> set ''0123456789'')"

fun match_here :: "tok list \<Rightarrow> string \<Rightarrow> bool" where
  "match_here [] s = True"
| "match_here (Lit l # ts) s = (startsWith s l \<and> match_here ts (drop (length l) s))"
| "match_here (Digits # ts) [] = False"
| "match_here (Digits # ts) (c # cs) =
     (is_digit c \<and> (match_here ts cs \<or> match_here (Digits # ts) cs))"

fun regex_test :: "tok list \<Rightarrow> string \<Rightarrow> bool" where
  "regex_test pat [] = match_here pat []"
| "regex_test pat (c # cs) = (match_here pat (c # cs) \<or> regex_test pat cs)"

definition patterns :: "tok list list" where
  "patterns =
     [[Lit ''/channels/'', Digits, Lit ''/messages''],
      [Lit ''/guilds/'', Digits, Lit ''/members''],
      [Lit ''/guilds/'', Digits, Lit ''/bans''],
      [Lit ''/users/'', Digits],
      [Lit ''/webhooks/'', Digits],
      [Lit ''/interactions'']]"

text \<open>
  \<open>pattern.source.replace(/\\\//g, '/').replace(/\\\d+/g, '{id}')\<close>: the first
  replacement unescapes the slashes; the second looks for a backslash followed by digits,
  finds none, and leaves the text \<open>\d+\<close> in place.
\<close>

fun tok_text :: "tok \<Rightarrow> string" where
  "tok_text (Lit l) = l"
| "tok_text Digits = [CHR 0x5C, CHR ''d'', CHR ''+'']"

text \<open>
  \<open>extractUrlPattern\<close>: the source text of the first pattern that matches; otherwise
  \<open>new URL(url).pathname\<close>. The constructor is called without a base and throws a
  \<open>TypeError\<close> for a string that has no scheme, as every string without a colon.
\<close>

definition extractUrlPattern :: "platform \<Rightarrow> string \<Rightarrow> js_error + string" where
  "extractUrlPattern pf u =
     (case find (\<lambda>pat. regex_test pat u) patterns of
        Some pat \<Rightarrow> Inr (concat (map tok_text pat))
      | None \<Rightarrow>
          if CHR '':'' \<notin> set u then Inl InvalidURL
          else (case pathname pf u of None \<Rightarrow> Inl InvalidURL | Some path \<Rightarrow> Inr path))"

definition extractBucketIdFromRequest :: "platform \<Rightarrow> QueuedRequest \<Rightarrow> js_error + string" where
  "extractBucketIdFromRequest pf request =
     (if truthy (bucketId request) then Inr (the (bucketId request))
      else (case extractUrlPattern pf (url request) of
              Inl e \<Rightarrow> Inl e
            | Inr pat \<Rightarrow> Inr (''bucket:'' @ pat @ '':'' @ request_method request)))"

definition shouldRetry :: "js_error \<Rightarrow> QueuedRequest \<Rightarrow> bool" where
  "shouldRetry error request =
     (if retryCount request \<ge> maxRetries request then False
      else if code error = Some ''ECONNRESET'' \<or> code error = Some ''ETIMEDOUT'' then True
      else if str_includes (message error) ''timeout'' then True
      else if str_includes (message error) ''HTTP 5'' then True
      else if str_includes (message error) ''HTTP 429'' then True
      else False)"

text \<open>
  \<open>retryRequest\<close>: the delay is not modelled; the request goes back into the queue under
  a new promise, which becomes the outcome.
\<close>

definition retryRequest ::
  "QueuedRequest \<Rightarrow> Middleware \<times> promises \<Rightarrow> exec_outcome \<times> QueuedRequest \<times> Middleware \<times> promises" where
  "retryRequest request st =
     (case st of (m, ps) \<Rightarrow>
        let request' = request\<lparr>retryCount := retryCount request + 1\<rparr>
        in if retryCount request' > maxRetries request' then
             (Threw (RetriesExhausted (maxRetries request')), request', m, ps)
           else
             (case enqueue request' (queue m, ps) of
                (p, q', ps') \<Rightarrow>
                  ((case ps' ! p of Rejected e \<Rightarrow> Threw e | _ \<Rightarrow> Requeued p),
                   attached request' (queue m, ps), m\<lparr>queue := q'\<rparr>, ps')))"

definition handleRateLimitResponse ::
  "BucketManager \<Rightarrow> platform \<Rightarrow> int \<Rightarrow> QueuedRequest \<Rightarrow> HttpResponse \<Rightarrow> Middleware \<Rightarrow> Middleware" where
  "handleRateLimitResponse bm pf now request response m =
     (let reset = parseInt pf (header_or_zero (headers response) ''x-ratelimit-reset-after'');
          after = (case data response of
                     None \<Rightarrow> reset
                   | Some d \<Rightarrow> (case retry_after d of
                                  None \<Rightarrow> reset
                                | Some t \<Rightarrow> if t = 0 then reset else t));
          m1 = count RateLimitedRequests m
      in if truthy (bucketId request) then
           updateBucket bm now (the (bucketId request))
             ((extractRateLimitInfo pf (headers response) 3 after)
                \<lparr>resetAfter := after, bucket := bucketId request\<rparr>) m1
         else m1)"

text \<open>The \<open>catch\<close> block of \<open>executeRequest\<close>.\<close>

definition catch_block ::
  "js_error \<Rightarrow> QueuedRequest \<Rightarrow> Middleware \<times> promises \<Rightarrow>
   exec_outcome \<times> QueuedRequest \<times> Middleware \<times> promises" where
  "catch_block error request st =
     (case st of (m, ps) \<Rightarrow>
        let m' = count FailedRequests m
        in if shouldRetry error request then retryRequest request (m', ps)
           else (Threw error, request, m', ps))"

definition executeRequest ::
  "BucketManager \<Rightarrow> platform \<Rightarrow> int \<Rightarrow> transport \<Rightarrow> QueuedRequest \<Rightarrow> Middleware \<times> promises \<Rightarrow>
   exec_outcome \<times> QueuedRequest \<times> Middleware \<times> promises" where
  "executeRequest bm pf now tr request st =
     (case st of (m, ps) \<Rightarrow>
        (case tr of
           Hangs \<Rightarrow> catch_block (RequestTimeout (requestTimeout m)) request (m, ps)
         | Throws error \<Rightarrow> catch_block error request (m, ps)
         | Responds response \<Rightarrow>
             let info = extractRateLimitInfo pf (headers response) 3
                          (parseInt pf (header_or_zero (headers response) ''x-ratelimit-reset-after''));
                 m1 = (if truthy (bucket info) then updateBucket bm now (the (bucket info)) info m
                       else m)
             in if status response = 429 then
                  retryRequest request (handleRateLimitResponse bm pf now request response m1, ps)
                else if status response \<ge> 200 \<and> status response < 300 then
                  (Returned (data response), request, count SuccessfulRequests m1, ps)
                else
                  catch_block
                    (HttpError (status response)
                       (case data response of None \<Rightarrow> None | Some d \<Rightarrow> data_message d))
                    request (count FailedRequests m1, ps)))"

text \<open>
  \<open>execute\<close>. The promise it returns adopts the one from \<open>queue.enqueue\<close>, so a queue
  promise that is rejected at once is a failed admission. The \<open>finally\<close> block counts the
  request on every path.
\<close>

definition enqueue_or_fail ::
  "QueuedRequest \<Rightarrow> Middleware \<times> promises \<Rightarrow> admission \<times> Middleware \<times> promises" where
  "enqueue_or_fail request st =
     (case st of (m, ps) \<Rightarrow>
        (case enqueue request (queue m, ps) of
           (p, q', ps') \<Rightarrow>
             ((case ps' ! p of Rejected e \<Rightarrow> Failed e | _ \<Rightarrow> Queued p),
              count TotalRequests (m\<lparr>queue := q'\<rparr>), ps')))"

definition execute ::
  "BucketManager \<Rightarrow> platform \<Rightarrow> int \<Rightarrow> QueuedRequest \<Rightarrow> Middleware \<times> promises \<Rightarrow>
   admission \<times> Middleware \<times> promises" where
  "execute bm pf now request st =
     (case st of (m, ps) \<Rightarrow>
        (case extractBucketIdFromRequest pf request of
           Inl e \<Rightarrow> (Failed e, count TotalRequests m, ps)
         | Inr b \<Rightarrow>
             let request' = request\<lparr>bucketId := Some b\<rparr>
             in (case isRateLimited bm now b m of
                   (isLimited, m1) \<Rightarrow>
                     if isLimited then enqueue_or_fail request' (m1, ps)
                     else (case bm_consumeRequest bm now b (store m1) of
                             (consumed, s2) \<Rightarrow>
                               if \<not> consumed then enqueue_or_fail request' (m1\<lparr>store := s2\<rparr>, ps)
                               else (Dispatched request',
                                     count TotalRequests (m1\<lparr>store := s2\<rparr>), ps)))))"

definition canExecuteRequest ::
  "BucketManager \<Rightarrow> int \<Rightarrow> QueuedRequest \<Rightarrow> Middleware \<Rightarrow> bool \<times> Middleware" where
  "canExecuteRequest bm now request m =
     (if \<not> truthy (bucketId request) then (True, m)
      else (case isRateLimited bm now (the (bucketId request)) m of
              (isLimited, m') \<Rightarrow> (\<not> isLimited, m')))"

text \<open>
  One turn of the \<open>while (this.processing)\<close> loop of \<open>processQueue\<close>. \<open>tr\<close> is what the
  transport answers if the request is executed, and the settlement that the \<open>then\<close> and
  \<open>catch\<close> callbacks perform later is done in the same turn; it goes to the promise that
  \<open>request.resolve\<close> and \<open>request.reject\<close> name when they are called. After a re-queue
  by \<open>retryRequest\<close> nothing is settled in this turn.
\<close>

definition processQueue_turn ::
  "BucketManager \<Rightarrow> platform \<Rightarrow> int \<Rightarrow> transport \<Rightarrow> Middleware \<times> promises \<Rightarrow> Middleware \<times> promises" where
  "processQueue_turn bm pf now tr st =
     (case st of (m, ps) \<Rightarrow>
        if \<not> mw_processing m then (m, ps)
        else (case dequeue (queue m) of
                (None, q') \<Rightarrow> (m, ps)
              | (Some request, q') \<Rightarrow>
                  (case canExecuteRequest bm now request (m\<lparr>queue := q'\<rparr>) of
                     (canExecute, m1) \<Rightarrow>
                       if \<not> canExecute then
                         (case enqueue request (queue m1, ps) of
                            (p, q'', ps') \<Rightarrow> (m1\<lparr>queue := q''\<rparr>, ps'))
                       else
                         (case executeRequest bm pf now tr request (m1, ps) of
                            (Returned result, request', m2, ps2) \<Rightarrow>
                              (m2, settle (settles request') (Resolved result) ps2)
                          | (Threw error, request', m2, ps2) \<Rightarrow>
                              (m2, settle (settles request') (Rejected error) ps2)
                          | (Requeued p, request', m2, ps2) \<Rightarrow> (m2, ps2)))))"

definition stop :: "Middleware \<Rightarrow> Middleware" where
  "stop m = m\<lparr>mw_processing := False\<rparr>"

definition clearQueue :: "Middleware \<times> promises \<Rightarrow> Middleware \<times> promises" where
  "clearQueue st = (case st of (m, ps) \<Rightarrow> (case clear (queue m, ps) of (q', ps') \<Rightarrow> (m\<lparr>queue := q'\<rparr>, ps')))"

section \<open>DiscordRateLimitOrchestrator (orchestrator.ts)\<close>

text \<open>The fields of the \<open>config\<close> object that the orchestrator reads for request defaults.\<close>

record OrchestratorConfig =
  cfg_maxRetries :: "int option"
  cfg_requestTimeout :: "int option"

text \<open>
  The store is the one object that the orchestrator, the bucket manager and the middleware
  share; it is kept once, in the middleware.
\<close>

record Orchestrator =
  middleware :: Middleware
  isShutdown :: bool
  cleanupInterval :: bool
  config :: OrchestratorConfig

definition Orchestrator_new :: "int \<Rightarrow> OrchestratorConfig \<Rightarrow> Orchestrator" where
  "Orchestrator_new now cfg =
     \<lparr>middleware = Middleware_new now, isShutdown = False, cleanupInterval = True, config = cfg\<rparr>"

definition getPriorityFromEndpoint :: "string \<Rightarrow> int" where
  "getPriorityFromEndpoint u =
     (if str_includes u ''/interactions/'' \<and> str_includes u ''/callback'' then 0
      else if str_includes u ''/typing'' \<or> startsWith u ''DELETE/'' then 1
      else if startsWith u ''POST/'' \<or> startsWith u ''PUT/'' then 2
      else if startsWith u ''GET/'' \<and> str_includes u ''/audit-logs'' then 3
      else if str_includes u ''/bulk-'' then 4
      else if getRateLimitConfig_defaultLimit u > 5 then 1 else 2)"

text \<open>\<open>a || b\<close> on an optional number: \<open>undefined\<close> and 0 give \<open>b\<close>.\<close>

fun or_else :: "int option \<Rightarrow> int \<Rightarrow> int" where
  "or_else None d = d"
| "or_else (Some v) d = (if v = 0 then d else v)"

definition with_defaults :: "OrchestratorConfig \<Rightarrow> QueuedRequest \<Rightarrow> QueuedRequest" where
  "with_defaults cfg request =
     (let r1 = (if priority request = 0
                then request\<lparr>priority := getPriorityFromEndpoint (url request)\<rparr> else request);
          r2 = (if maxRetries r1 = 0
                then r1\<lparr>maxRetries := or_else (cfg_maxRetries cfg) default_maxRetries\<rparr> else r1)
      in if or_else (timeout r2) 0 = 0
         then r2\<lparr>timeout := Some (or_else (cfg_requestTimeout cfg) default_requestTimeout)\<rparr>
         else r2)"

definition Orchestrator_enqueue ::
  "BucketManager \<Rightarrow> platform \<Rightarrow> int \<Rightarrow> QueuedRequest \<Rightarrow> Orchestrator \<times> promises \<Rightarrow>
   admission \<times> Orchestrator \<times> promises" where
  "Orchestrator_enqueue bm pf now request st =
     (case st of (orc, ps) \<Rightarrow>
        if isShutdown orc then (Failed OrchestratorShutdown, orc, ps)
        else (case execute bm pf now (with_defaults (config orc) request) (middleware orc, ps) of
                (a, m', ps') \<Rightarrow> (a, orc\<lparr>middleware := m'\<rparr>, ps')))"

definition handleRateLimit ::
  "BucketManager \<Rightarrow> int \<Rightarrow> RateLimitInfo \<Rightarrow> Orchestrator \<Rightarrow> Orchestrator" where
  "handleRateLimit bm now info orc =
     (if isShutdown orc then orc
      else if global info then
        orc\<lparr>middleware := (middleware orc)\<lparr>store := setGlobalLimit now info (store (middleware orc))\<rparr>\<rparr>
      else if truthy (bucket info) then
        orc\<lparr>middleware := (middleware orc)
              \<lparr>store := bm_handleRateLimit bm now (the (bucket info)) info (store (middleware orc))\<rparr>\<rparr>
      else orc)"


definition shutdown :: "int \<Rightarrow> Orchestrator \<times> promises \<Rightarrow> Orchestrator \<times> promises" where
  "shutdown now st =
     (case st of (orc, ps) \<Rightarrow>
        if isShutdown orc then (orc, ps)
        else (case clearQueue (stop (middleware orc), ps) of
                (m', ps') \<Rightarrow>
                  (orc\<lparr>isShutdown := True, cleanupInterval := False,
                       middleware := m'\<lparr>store := destroy now (store m')\<rparr>\<rparr>, ps')))"

section \<open>Histories of rate-limit queries\<close>


section \<open>Histories of queue operations\<close>

text \<open>
  A run of \<open>enqueue\<close> calls; next to the state it collects, in call order, the requests
  whose promise was not rejected by the call, which are the ones now in the queue.
\<close>

definition enqueue_step ::
  "QueuedRequest \<Rightarrow> QueuedRequest list \<times> PriorityQueue \<times> promises \<Rightarrow>
   QueuedRequest list \<times> PriorityQueue \<times> promises" where
  "enqueue_step request st =
     (case st of (acc, q, ps) \<Rightarrow>
        (case enqueue request (q, ps) of
           (p, q', ps') \<Rightarrow> (if ps' ! p = Pending then acc @ [request] else acc, q', ps')))"

definition enqueue_all ::
  "QueuedRequest list \<Rightarrow> PriorityQueue \<times> promises \<Rightarrow> QueuedRequest list \<times> PriorityQueue \<times> promises" where
  "enqueue_all rs st = fold enqueue_step rs ([], st)"

text \<open>\<open>k\<close> calls of \<open>dequeue\<close> in a row, with their results in call order.\<close>

fun dequeue_n :: "nat \<Rightarrow> PriorityQueue \<Rightarrow> QueuedRequest option list \<times> PriorityQueue" where
  "dequeue_n 0 q = ([], q)"
| "dequeue_n (Suc k) q =
     (case dequeue q of (r, q') \<Rightarrow> (case dequeue_n k q' of (rs, q'') \<Rightarrow> (r # rs, q'')))"

text \<open>A request without the promise it settles, to compare requests across calls.\<close>

definition plain :: "QueuedRequest \<Rightarrow> QueuedRequest" where
  "plain r = r\<lparr>settles := 0\<rparr>"

text \<open>
  The order that strict priority with a stable sort on the timestamp gives to a list of
  requests: tier after tier, each tier by timestamp, equal timestamps in list order.
\<close>

definition service_order :: "QueuedRequest list \<Rightarrow> QueuedRequest list" where
  "service_order rs =
     concat (map (\<lambda>p. sort_key timestamp (filter (\<lambda>r. priority r = p) rs)) tiers)"

datatype queue_op =
    Enqueue QueuedRequest
  | Dequeue
  | RemoveExpired int int
  | ClearBucket string
  | PromoteRequests string int
  | Clear

fun apply_op :: "queue_op \<Rightarrow> PriorityQueue \<times> promises \<Rightarrow> PriorityQueue \<times> promises" where
  "apply_op (Enqueue r) st = snd (enqueue r st)"
| "apply_op Dequeue (q, ps) = (snd (dequeue q), ps)"
| "apply_op (RemoveExpired timeoutMs now) st = snd (removeExpired timeoutMs now st)"
| "apply_op (ClearBucket b) st = snd (clearBucket b st)"
| "apply_op (PromoteRequests b p) (q, ps) = (snd (promoteRequests b p q), ps)"
| "apply_op Clear st = clear st"

definition run_ops :: "queue_op list \<Rightarrow> PriorityQueue \<times> promises \<Rightarrow> PriorityQueue \<times> promises" where
  "run_ops ops st = fold apply_op ops st"

section \<open>Sample data\<close>

text \<open>A request as the test-suite builds them: an id, a priority and a timestamp.\<close>

definition req :: "string \<Rightarrow> int \<Rightarrow> int \<Rightarrow> QueuedRequest" where
  "req i p t =
     \<lparr>request_id = i, url = ''https://discord.com/api/v9/channels/123/messages'',
      request_method = ''POST'', priority = p, timestamp = t, retryCount = 0, maxRetries = 3,
      timeout = None, bucketId = None, settles = 0\<rparr>"

section \<open>The invariant of the size counter\<close>

text \<open>
  The array lengths of a map summed up, and the invariant: the map holds the five tiers
  in order and the cached total is that sum.
\<close>

definition sizes :: "(int \<times> QueuedRequest list) list \<Rightarrow> int" where
  "sizes qs = (\<Sum>e\<leftarrow>qs. int (length (snd e)))"

definition counted :: "PriorityQueue \<Rightarrow> bool" where
  "counted q = (map fst (queues q) = tiers \<and> totalSize q = sizes (queues q))"

section \<open>Views of the queue\<close>

text \<open>
  \<open>ordered\<close>: the map holds exactly the five tiers, in order. \<open>flat\<close>: the queued
  requests, tier after tier. \<open>tier\<close>: the array of one priority. \<open>settled_in\<close>: what a
  run of \<open>enqueue\<close> calls that accepted \<open>acc\<close> leaves in the queue.
\<close>

definition ordered :: "PriorityQueue \<Rightarrow> bool" where
  "ordered q = (map fst (queues q) = tiers)"

definition flat :: "PriorityQueue \<Rightarrow> QueuedRequest list" where
  "flat q = concat (map snd (queues q))"

definition tier :: "PriorityQueue \<Rightarrow> int \<Rightarrow> QueuedRequest list" where
  "tier q p = (case map_of (queues q) p of Some xs \<Rightarrow> xs | None \<Rightarrow> [])"

definition settled_in ::
  "QueuedRequest list \<Rightarrow> PriorityQueue \<Rightarrow> bool" where
  "settled_in acc q =
     (ordered q \<and> totalSize q = int (length acc) \<and>
      (\<forall>r\<in>set acc. priority r \<in> set tiers) \<and>
      (\<forall>p\<in>set tiers. map plain (tier q p)
          = sort_key timestamp (filter (\<lambda>r. priority r = p) (map plain acc))))"

section \<open>Histories of bucket operations\<close>

text \<open>\<open>consumeRequest(b)\<close> called at each of the given clock readings, in turn.\<close>

fun consume_at :: "int list \<Rightarrow> string \<Rightarrow> MemoryRateLimitStore \<Rightarrow> bool list \<times> MemoryRateLimitStore" where
  "consume_at [] b s = ([], s)"
| "consume_at (t # ts) b s =
     (case BucketManager_consumeRequest t b s of
        (r, s') \<Rightarrow> (case consume_at ts b s' of (rs, s'') \<Rightarrow> (r # rs, s'')))"

text \<open>A store with two live buckets, written through \<open>setBucket\<close> at time 0.\<close>

definition two_buckets :: MemoryRateLimitStore where
  "two_buckets =
     setBucket 0 ''b2'' (fresh_bucket 0 ''b2'' 1 3000)
       (setBucket 0 ''b1'' (fresh_bucket 0 ''b1'' 5 5000) (MemoryRateLimitStore_new 0))"


definition proto_store :: MemoryRateLimitStore where
  "proto_store =
     setBucket 0 ''__proto__'' (fresh_bucket 0 ''__proto__'' 5 5000) (MemoryRateLimitStore_new 0)"

section \<open>Sample collaborators\<close>

text \<open>
  A bucket manager that never reports a bucket limit and always grants a token, platform
  functions that answer nothing, an empty configuration, a global rate-limit record as in
  the test-suite, an error response with a message, a request that names its bucket, and
  an orchestrator created at time 0 that was told of a global limit of 1000 ms at once.
\<close>

definition never_limited :: BucketManager where
  "never_limited =
     \<lparr>bm_isRateLimited = (\<lambda>now b s. (False, s)),
      bm_consumeRequest = (\<lambda>now b s. (True, s)),
      bm_handleRateLimit = (\<lambda>now b info s. s)\<rparr>"

definition no_platform :: platform where
  "no_platform = \<lparr>parseInt = (\<lambda>t. 0), pathname = (\<lambda>u. None)\<rparr>"

definition no_config :: OrchestratorConfig where
  "no_config = \<lparr>cfg_maxRetries = None, cfg_requestTimeout = None\<rparr>"

definition global_info :: "int \<Rightarrow> RateLimitInfo" where
  "global_info t =
     \<lparr>limit = 50, remaining = 0, resetAfter = t, info_maxRetries = 3, retryAfter = t,
      global = True, bucket = None\<rparr>"

definition error_response :: "int \<Rightarrow> string \<Rightarrow> HttpResponse" where
  "error_response st msg =
     \<lparr>status = st, headers = (\<lambda>k. None),
      data = Some \<lparr>data_message = Some msg, retry_after = None, payload = []\<rparr>\<rparr>"

definition tagged_req :: "int \<Rightarrow> QueuedRequest" where
  "tagged_req p = (req ''r'' p 10)\<lparr>bucketId := Some ''bucketX''\<rparr>"

definition limited_orchestrator :: Orchestrator where
  "limited_orchestrator =
     handleRateLimit never_limited 0 (global_info 1000) (Orchestrator_new 0 no_config)"

section \<open>Queue capacity\<close>

text \<open>
  C6. When the cached total has reached \<open>maxSize\<close>, \<open>enqueue\<close> returns a promise that is
  already rejected with the queue-full error, and the queue (every tier and the total) is
  the one it was given.
\<close>

theorem enqueue_full_rejects:
  assumes "getTotalSize q \<ge> maxSize q"
  shows "enqueue request (q, ps) = (length ps, q, ps @ [Rejected QueueFull])"
  using assms by (simp add: enqueue_def getTotalSize_def)

text \<open>
  The case of the test-suite: a queue of size one that holds one request rejects the
  second.
\<close>

theorem enqueue_full_rejects_witness:
  "(let q = fst (snd (enqueue (req ''1'' 2 100) (PriorityQueue_new 1, [])))
    in getTotalSize q \<ge> maxSize q \<and>
       enqueue (req ''2'' 2 100) (q, [Pending]) = (1, q, [Pending, Rejected QueueFull]))"
  using enqueue_full_rejects
          [of "fst (snd (enqueue (req ''1'' 2 100) (PriorityQueue_new 1, [])))"
              "req ''2'' 2 100" "[Pending]"]
  by (simp add: enqueue_def PriorityQueue_new_def tiers_def getTotalSize_def Let_def req_def
      sort_by_timestamp_def)

section \<open>The size counter\<close>

lemma splice_loop_eq:
  "i \<le> length xs \<Longrightarrow>
   splice_loop P i xs = (filter (\<lambda>x. \<not> P x) (take i xs) @ drop i xs, rev (filter P (take i xs)))"
proof (induction i arbitrary: xs)
  case 0
  then show ?case by simp
next
  case (Suc i)
  then have i: "i < length xs" by simp
  have t: "take (Suc i) xs = take i xs @ [xs ! i]"
    using i by (simp add: take_Suc_conv_app_nth)
  show ?case
  proof (cases "P (xs ! i)")
    case True
    have len: "i \<le> length (take i xs @ drop (Suc i) xs)" using i by simp
    have tk: "take i (take i xs @ drop (Suc i) xs) = take i xs" using i by simp
    have dr: "drop i (take i xs @ drop (Suc i) xs) = drop (Suc i) xs" using i by simp
    show ?thesis using True i Suc.IH[OF len] by (simp add: t tk dr)
  next
    case False
    have d: "drop i xs = xs ! i # drop (Suc i) xs" using i by (simp add: Cons_nth_drop_Suc)
    show ?thesis using False i Suc.IH[of xs] by (simp add: t d)
  qed
qed

lemma splice_all_eq: "splice_all P xs = (filter (\<lambda>x. \<not> P x) xs, rev (filter P xs))"
  by (simp add: splice_all_def splice_loop_eq)

lemma sizes_update:
  "distinct (map fst qs) \<Longrightarrow>
   sizes (AList.update p new qs) =
   sizes qs - (case map_of qs p of Some old \<Rightarrow> int (length old) | None \<Rightarrow> 0) + int (length new)"
proof (induction qs)
  case Nil
  then show ?case by (simp add: sizes_def)
next
  case (Cons e qs)
  then have "fst e \<noteq> p \<Longrightarrow> sizes (AList.update p new qs) =
    sizes qs - (case map_of qs p of Some old \<Rightarrow> int (length old) | None \<Rightarrow> 0) + int (length new)"
    by simp
  moreover have "fst e = p \<Longrightarrow> map_of qs p = None"
    using Cons.prems by (auto simp: map_of_eq_None_iff)
  ultimately show ?case by (cases e) (auto simp: sizes_def)
qed

lemma keys_update: "map_of qs p = Some old \<Longrightarrow> map fst (AList.update p new qs) = map fst qs"
  by (induction qs) (auto split: if_splits)

lemma tiers_distinct: "distinct tiers"
  by (simp add: tiers_def)

lemma counted_new: "counted (PriorityQueue_new m)"
  by (simp add: counted_def PriorityQueue_new_def sizes_def tiers_def)

lemma counted_enqueue: "counted q \<Longrightarrow> counted (fst (snd (enqueue r (q, ps))))"
  by (auto simp: counted_def enqueue_def sort_by_timestamp_def keys_update sizes_update tiers_distinct
      split: option.splits)

lemma counted_dequeue_from: "counted q \<Longrightarrow> counted (snd (dequeue_from ts q))"
  by (induction ts arbitrary: q) (auto simp: counted_def keys_update sizes_update tiers_distinct
      split: option.splits list.splits)

lemma sizes_split:
  "sizes (map (\<lambda>(p, queue). (p, fst (splice_all P queue))) qs)
   = sizes qs - int (length (concat (map (\<lambda>(p, queue). snd (splice_all P queue)) qs)))"
proof (induction qs)
  case Nil
  then show ?case by (simp add: sizes_def)
next
  case (Cons e qs)
  have "int (length (filter (\<lambda>x. \<not> P x) (snd e))) = int (length (snd e)) - int (length (filter P (snd e)))"
    using sum_length_filter_compl[of P "snd e"] by simp
  with Cons show ?case by (cases e) (simp add: sizes_def splice_all_eq)
qed

lemma keys_map: "map fst (map (\<lambda>(p, queue). (p, f p queue)) qs) = map fst qs"
  by (induction qs) auto

lemma counted_removeExpired: "counted q \<Longrightarrow> counted (fst (snd (removeExpired t now (q, ps))))"
  using keys_map[of "\<lambda>p queue. fst (splice_all (\<lambda>request. now - timestamp request > t) queue)" "queues q"]
  by (simp add: counted_def removeExpired_def Let_def sizes_split)

lemma counted_clearBucket: "counted q \<Longrightarrow> counted (fst (snd (clearBucket b (q, ps))))"
  using keys_map[of "\<lambda>p queue. fst (splice_all (\<lambda>request. bucketId request = Some b) queue)" "queues q"]
  by (simp add: counted_def clearBucket_def Let_def sizes_split)

lemma counted_clear: "counted q \<Longrightarrow> counted (fst (clear (q, ps)))"
proof -
  have "sizes (map (\<lambda>(p, queue). (p, [])) qs) = 0" for qs :: "(int \<times> QueuedRequest list) list"
    by (induction qs) (auto simp: sizes_def)
  then show "counted q \<Longrightarrow> counted (fst (clear (q, ps)))"
    using keys_map[of "\<lambda>p queue. []" "queues q"] by (simp add: counted_def clear_def)
qed

lemma sizes_part:
  assumes "\<And>p xs. length (f p xs) + length (g p xs) = length xs"
  shows "sizes (map (\<lambda>(p, xs). (p, f p xs)) qs)
   = sizes qs - int (length (concat (map (\<lambda>(p, xs). g p xs) qs)))"
proof (induction qs)
  case Nil
  then show ?case by (simp add: sizes_def)
next
  case (Cons e qs)
  have "int (length (f (fst e) (snd e))) = int (length (snd e)) - int (length (g (fst e) (snd e)))"
    using assms[of "fst e" "snd e"] by simp
  with Cons show ?case by (cases e) (simp add: sizes_def)
qed

lemma counted_promoteRequests: "counted q \<Longrightarrow> counted (snd (promoteRequests b np q))"
proof -
  assume c: "counted q"
  let ?P = "\<lambda>request. bucketId request = Some b"
  let ?f = "\<lambda>p xs. if p > np then fst (splice_all ?P xs) else xs"
  let ?g = "\<lambda>p xs. if p > np then snd (splice_all ?P xs) else []"
  let ?qs1 = "map (\<lambda>(p, xs). (p, ?f p xs)) (queues q)"
  let ?moved = "concat (map (\<lambda>(p, xs). ?g p xs) (queues q))"
  have len: "length (?f p xs) + length (?g p xs) = length xs" for p xs
    using sum_length_filter_compl[of ?P xs] by (simp add: splice_all_eq)
  have k1: "map fst ?qs1 = tiers" using c keys_map[of ?f "queues q"] by (simp add: counted_def)
  have s1: "sizes ?qs1 = sizes (queues q) - int (length ?moved)"
    by (rule sizes_part[OF len])
  have d1: "distinct (map fst ?qs1)" using k1 tiers_distinct by simp
  show ?thesis
  proof (cases "map_of ?qs1 np")
    case None
    then show ?thesis using c k1 s1 by (simp add: promoteRequests_def Let_def counted_def)
  next
    case (Some target)
    have "sizes (AList.update np (sort_by_timestamp (target @ map (\<lambda>request. request\<lparr>priority := np\<rparr>) ?moved)) ?qs1)
        = sizes ?qs1 + int (length ?moved)"
      using sizes_update[OF d1, of np] Some by (simp add: sort_by_timestamp_def)
    moreover have "map fst (AList.update np (sort_by_timestamp (target @ map (\<lambda>request. request\<lparr>priority := np\<rparr>) ?moved)) ?qs1) = tiers"
      using keys_update[OF Some] k1 by simp
    ultimately show ?thesis using c s1 Some by (simp add: promoteRequests_def Let_def counted_def)
  qed
qed

lemma counted_apply_op: "counted (fst st) \<Longrightarrow> counted (fst (apply_op op st))"
proof (cases st)
  case (Pair q ps)
  assume "counted (fst st)"
  then have c: "counted q" using Pair by simp
  show ?thesis
  proof (cases op)
    case (Enqueue r)
    then show ?thesis using counted_enqueue[OF c, of r ps] Pair by simp
  next
    case Dequeue
    then show ?thesis using counted_dequeue_from[OF c, of "[0, 1, 2, 3, 4]"] Pair
      by (simp add: dequeue_def del: dequeue_from.simps)
  next
    case (RemoveExpired t now)
    then show ?thesis using counted_removeExpired[OF c, of t now ps] Pair by simp
  next
    case (ClearBucket b)
    then show ?thesis using counted_clearBucket[OF c, of b ps] Pair by simp
  next
    case (PromoteRequests b p)
    then show ?thesis using counted_promoteRequests[OF c, of b p] Pair by simp
  next
    case Clear
    then show ?thesis using counted_clear[OF c, of ps] Pair by simp
  qed
qed

lemma counted_run_ops: "counted (fst st) \<Longrightarrow> counted (fst (run_ops ops st))"
  unfolding run_ops_def by (induction ops arbitrary: st) (auto simp: counted_apply_op)

lemma tier_sizes:
  "distinct (map fst qs) \<Longrightarrow>
   (\<Sum>p\<leftarrow>map fst qs. case map_of qs p of Some xs \<Rightarrow> int (length xs) | None \<Rightarrow> 0) = sizes qs"
proof (induction qs)
  case Nil
  then show ?case by (simp add: sizes_def)
next
  case (Cons e qs)
  have "(\<Sum>p\<leftarrow>map fst qs. case map_of (e # qs) p of Some xs \<Rightarrow> int (length xs) | None \<Rightarrow> 0)
      = (\<Sum>p\<leftarrow>map fst qs. case map_of qs p of Some xs \<Rightarrow> int (length xs) | None \<Rightarrow> 0)"
  proof -
    have "p \<in> set (map fst qs) \<Longrightarrow> map_of (e # qs) p = map_of qs p" for p
      using Cons.prems by (cases e) auto
    then show ?thesis by (intro arg_cong[where f = sum_list] map_cong) simp_all
  qed
  with Cons show ?case by (cases e) (simp add: sizes_def)
qed

lemma counted_total:
  "counted q \<Longrightarrow> getTotalSize q = (\<Sum>p\<leftarrow>tiers. getQueueSize q p)"
proof -
  assume c: "counted q"
  then have k: "map fst (queues q) = tiers" by (simp add: counted_def)
  then have d: "distinct (map fst (queues q))" using tiers_distinct by simp
  show ?thesis using tier_sizes[OF d, unfolded k] c
    by (simp add: counted_def getTotalSize_def getQueueSize_def)
qed

text \<open>
  C10. After any sequence of \<open>enqueue\<close>, \<open>dequeue\<close>, \<open>removeExpired\<close>, \<open>clearBucket\<close>,
  \<open>promoteRequests\<close> and \<open>clear\<close> on a new queue, \<open>getTotalSize()\<close> is the sum of
  \<open>getQueueSize(p)\<close> over the five tiers.
\<close>

theorem total_size_matches_tiers:
  "getTotalSize (fst (run_ops ops (PriorityQueue_new m, ps)))
   = (\<Sum>p\<leftarrow>[0, 1, 2, 3, 4]. getQueueSize (fst (run_ops ops (PriorityQueue_new m, ps))) p)"
  using counted_total[OF counted_run_ops[of "(PriorityQueue_new m, ps)" ops]] counted_new
  by (simp add: tiers_def)

section \<open>Service order\<close>

lemma tiers_shape:
  "map fst qs = tiers \<Longrightarrow> \<exists>a b c d e. qs = [(0, a), (1, b), (2, c), (3, d), (4, e)]"
  unfolding tiers_def by (auto simp: map_eq_Cons_conv)

lemma dequeue_flat:
  assumes "ordered q"
  shows "fst (dequeue q) = (case flat q of [] \<Rightarrow> None | x # xs \<Rightarrow> Some x)
       \<and> flat (snd (dequeue q)) = tl (flat q) \<and> ordered (snd (dequeue q))"
proof -
  obtain a b c d e where qs: "queues q = [(0, a), (1, b), (2, c), (3, d), (4, e)]"
    using assms tiers_shape unfolding ordered_def by blast
  show ?thesis
    by (cases a; cases b; cases c; cases d; cases e)
       (simp_all add: dequeue_def flat_def ordered_def tiers_def qs)
qed

lemma dequeue_n_flat:
  "ordered q \<Longrightarrow>
   fst (dequeue_n k q) = map Some (take k (flat q)) @ replicate (k - length (flat q)) None"
proof (induction k arbitrary: q)
  case 0
  then show ?case by simp
next
  case (Suc k)
  note d = dequeue_flat[OF Suc.prems]
  have o: "ordered (snd (dequeue q))" using d by simp
  show ?case
  proof (cases "flat q")
    case Nil
    then show ?thesis using d Suc.IH[OF o]
      by (simp add: split_beta replicate_append_same)
  next
    case (Cons x xs)
    then show ?thesis using d Suc.IH[OF o] by (simp add: split_beta)
  qed
qed

lemma flat_tiers: "ordered q \<Longrightarrow> flat q = concat (map (tier q) tiers)"
proof -
  assume "ordered q"
  then obtain a b c d e where qs: "queues q = [(0, a), (1, b), (2, c), (3, d), (4, e)]"
    using tiers_shape unfolding ordered_def by blast
  show ?thesis by (simp add: flat_def tier_def tiers_def qs)
qed

lemma insort_plain:
  "map plain (insort_key timestamp x xs) = insort_key timestamp (plain x) (map plain xs)"
  by (induction xs) (simp_all add: plain_def)

lemma sort_plain: "map plain (sort_key timestamp xs) = sort_key timestamp (map plain xs)"
  by (induction xs) (simp_all add: insort_plain)

lemma sort_key_absorb: "sort_key f (sort_key f xs @ ys) = sort_key f (xs @ ys)"
proof (rule properties_for_sort_key[symmetric])
  show "mset (sort_key f (sort_key f xs @ ys)) = mset (xs @ ys)" by simp
  show "sorted (map f (sort_key f (sort_key f xs @ ys)))" by simp
  fix k
  have "filter (\<lambda>x. f x = f k) (sort_key f (sort_key f xs @ ys))
      = filter (\<lambda>x. f x = f k) (xs @ ys)"
    by (simp add: sort_key_stable)
  then show "filter (\<lambda>x. f k = f x) (sort_key f (sort_key f xs @ ys))
      = filter (\<lambda>x. f k = f x) (xs @ ys)"
    by (simp add: eq_commute[of "f k"])
qed

lemma settled_new: "settled_in [] (PriorityQueue_new m)"
  by (simp add: settled_in_def ordered_def PriorityQueue_new_def tier_def tiers_def)

lemma tier_update:
  "tier (q\<lparr>queues := AList.update p new (queues q), totalSize := n\<rparr>) p'
   = (if p' = p then new else tier q p')"
  by (simp add: tier_def update_conv')

lemma ordered_keys: "ordered q \<Longrightarrow> fst ` set (queues q) = set tiers"
  unfolding ordered_def by (metis set_map)

lemma settled_enqueue_step:
  assumes "settled_in acc q"
  shows "case enqueue_step r (acc, q, ps) of (acc', q', ps') \<Rightarrow>
           settled_in acc' q' \<and> maxSize q' = maxSize q \<and>
           (acc' = acc @ [r] \<or> acc' = acc) \<and>
           (totalSize q < maxSize q \<and> priority r \<in> set tiers \<longrightarrow> acc' = acc @ [r])"
proof (cases "totalSize q \<ge> maxSize q")
  case True
  then show ?thesis using assms by (simp add: enqueue_step_def enqueue_def)
next
  case False
  show ?thesis
  proof (cases "map_of (queues q) (priority r)")
    case None
    have "priority r \<notin> set tiers"
      using None assms ordered_keys[of q] by (simp add: settled_in_def map_of_eq_None_iff)
    then show ?thesis using False None assms by (simp add: enqueue_step_def enqueue_def)
  next
    case (Some old)
    let ?new = "sort_by_timestamp (old @ [r\<lparr>settles := length ps\<rparr>])"
    let ?q' = "q\<lparr>queues := AList.update (priority r) ?new (queues q), totalSize := totalSize q + 1\<rparr>"
    have step: "enqueue_step r (acc, q, ps) = (acc @ [r], ?q', ps @ [Pending])"
      using False Some by (simp add: enqueue_step_def enqueue_def)
    have inT: "priority r \<in> set tiers"
      using Some assms map_of_eq_None_iff[of "queues q" "priority r"] ordered_keys[of q]
      by (simp add: settled_in_def)
    have old: "map plain old = sort_key timestamp (filter (\<lambda>x. priority x = priority r) (map plain acc))"
    proof -
      have "map plain (tier q (priority r))
          = sort_key timestamp (filter (\<lambda>x. priority x = priority r) (map plain acc))"
        using assms inT unfolding settled_in_def by blast
      then show ?thesis using Some by (simp add: tier_def)
    qed
    have pr: "plain (r\<lparr>settles := length ps\<rparr>) = plain r" by (simp add: plain_def)
    have new: "map plain ?new
        = sort_key timestamp (filter (\<lambda>x. priority x = priority r) (map plain (acc @ [r])))"
      by (simp add: sort_by_timestamp_def sort_plain old pr sort_key_absorb plain_def)
    have other: "p \<noteq> priority r \<Longrightarrow>
        filter (\<lambda>x. priority x = p) (map plain (acc @ [r])) = filter (\<lambda>x. priority x = p) (map plain acc)" for p
      by (auto simp: plain_def)
    have "settled_in (acc @ [r]) ?q'"
      unfolding settled_in_def
    proof (intro conjI)
      show "ordered ?q'" using assms keys_update[OF Some] by (simp add: settled_in_def ordered_def)
      show "totalSize ?q' = int (length (acc @ [r]))" using assms by (simp add: settled_in_def)
      show "\<forall>x\<in>set (acc @ [r]). priority x \<in> set tiers" using assms inT by (simp add: settled_in_def)
      show "\<forall>p\<in>set tiers. map plain (tier ?q' p)
              = sort_key timestamp (filter (\<lambda>r. priority r = p) (map plain (acc @ [r])))"
      proof
      fix p assume p: "p \<in> set tiers"
      show "map plain (tier ?q' p) = sort_key timestamp (filter (\<lambda>r. priority r = p) (map plain (acc @ [r])))"
      proof (cases "p = priority r")
        case True
        then have "tier ?q' p = ?new" by (simp add: tier_update)
        then show ?thesis using new True by simp
      next
        case False
        then have "tier ?q' p = tier q p" by (simp add: tier_update)
        moreover have "map plain (tier q p)
            = sort_key timestamp (filter (\<lambda>r. priority r = p) (map plain acc))"
          using assms p unfolding settled_in_def by blast
        ultimately show ?thesis using other[OF False] by simp
      qed
      qed
    qed
    then show ?thesis using step by simp
  qed
qed

lemma settled_fold:
  "settled_in acc0 q0 \<Longrightarrow> fold enqueue_step rs (acc0, q0, ps0) = (acc, q, ps') \<Longrightarrow>
   settled_in acc q \<and>
   (int (length acc0 + length rs) \<le> maxSize q0 \<and> (\<forall>r\<in>set rs. priority r \<in> set tiers)
      \<longrightarrow> acc = acc0 @ rs)"
proof (induction rs arbitrary: acc0 q0 ps0)
  case Nil
  then show ?case by simp
next
  case (Cons r rs)
  obtain acc1 q1 ps1 where s1: "enqueue_step r (acc0, q0, ps0) = (acc1, q1, ps1)"
    by (cases "enqueue_step r (acc0, q0, ps0)") auto
  from settled_enqueue_step[OF Cons.prems(1), of r ps0] s1
  have i1: "settled_in acc1 q1" and m1: "maxSize q1 = maxSize q0"
    and a1: "totalSize q0 < maxSize q0 \<and> priority r \<in> set tiers \<longrightarrow> acc1 = acc0 @ [r]"
    by simp_all
  have f: "fold enqueue_step rs (acc1, q1, ps1) = (acc, q, ps')"
    using Cons.prems(2) s1 by simp
  note ih = Cons.IH[OF i1 f]
  have t0: "totalSize q0 = int (length acc0)" using Cons.prems(1) by (simp add: settled_in_def)
  show ?case
  proof (intro conjI impI)
    show "settled_in acc q" using ih by simp
    assume h: "int (length acc0 + length (r # rs)) \<le> maxSize q0 \<and> (\<forall>r\<in>set (r # rs). priority r \<in> set tiers)"
    then have "acc1 = acc0 @ [r]" using a1 t0 by simp
    moreover from this have "int (length acc1 + length rs) \<le> maxSize q1" using h m1 by simp
    ultimately show "acc = acc0 @ r # rs" using ih h by simp
  qed
qed

lemma flat_plain:
  assumes "settled_in acc q"
  shows "map plain (flat q) = service_order (map plain acc)"
proof -
  have o: "ordered q" using assms by (simp add: settled_in_def)
  have "map plain (flat q) = concat (map (\<lambda>p. map plain (tier q p)) tiers)"
    by (simp add: flat_tiers[OF o] map_concat comp_def)
  also have "\<dots> = concat (map (\<lambda>p. sort_key timestamp (filter (\<lambda>r. priority r = p) (map plain acc))) tiers)"
    using assms by (intro arg_cong[where f = concat] map_cong) (simp_all add: settled_in_def)
  finally show ?thesis by (simp add: service_order_def)
qed

lemma service_order_sorted:
  "sorted (map timestamp xs) \<Longrightarrow>
   service_order xs = concat (map (\<lambda>p. filter (\<lambda>r. priority r = p) xs) tiers)"
  by (simp add: service_order_def sort_key_id_if_sorted sorted_filter)

lemma length_service_order:
  "\<forall>r\<in>set xs. priority r \<in> set tiers \<Longrightarrow> length (service_order xs) = length xs"
  by (induction xs) (auto simp: service_order_def tiers_def)

text \<open>
  C1 (as amended). After any run of \<open>enqueue\<close> calls on a new queue, \<open>k\<close> calls of
  \<open>dequeue\<close> return the accepted requests tier after tier in ascending priority, each
  tier by ascending timestamp with equal timestamps in call order, and then \<open>null\<close>.
  Every call is accepted when the run fits the capacity and uses the five priorities.
  Within a tier the order is the call order when the timestamps do not decrease from
  call to call.
\<close>

theorem dequeue_serves_tiers_by_timestamp:
  assumes "enqueue_all rs (PriorityQueue_new m, ps) = (acc, q, ps')"
  shows "map (map_option plain) (fst (dequeue_n k q))
           = map Some (take k (service_order (map plain acc))) @ replicate (k - length acc) None
       \<and> (int (length rs) \<le> m \<and> (\<forall>r\<in>set rs. priority r \<in> {0, 1, 2, 3, 4}) \<longrightarrow> acc = rs)
       \<and> (sorted (map timestamp acc) \<longrightarrow>
            service_order (map plain acc)
              = concat (map (\<lambda>p. filter (\<lambda>r. priority r = p) (map plain acc)) [0, 1, 2, 3, 4]))"
proof -
  have f: "fold enqueue_step rs ([], PriorityQueue_new m, ps) = (acc, q, ps')"
    using assms by (simp add: enqueue_all_def)
  note s = settled_fold[OF settled_new f]
  then have si: "settled_in acc q" by simp
  then have o: "ordered q" by (simp add: settled_in_def)
  have pl: "\<forall>r\<in>set (map plain acc). priority r \<in> set tiers"
    using si by (simp add: settled_in_def plain_def)
  have len: "length (flat q) = length acc"
    using arg_cong[OF flat_plain[OF si], of length] length_service_order[OF pl] by simp
  have "map (map_option plain) (fst (dequeue_n k q))
      = map Some (take k (map plain (flat q))) @ replicate (k - length (flat q)) None"
    by (simp add: dequeue_n_flat[OF o] take_map comp_def)
  then have a: "map (map_option plain) (fst (dequeue_n k q))
      = map Some (take k (service_order (map plain acc))) @ replicate (k - length acc) None"
    by (simp add: flat_plain[OF si] len)
  have b: "int (length rs) \<le> m \<and> (\<forall>r\<in>set rs. priority r \<in> {0, 1, 2, 3, 4}) \<longrightarrow> acc = rs"
    using s by (simp add: PriorityQueue_new_def tiers_def)
  have ts: "map timestamp (map plain acc) = map timestamp acc" by (simp add: plain_def comp_def)
  have c: "sorted (map timestamp acc) \<longrightarrow>
            service_order (map plain acc)
              = concat (map (\<lambda>p. filter (\<lambda>r. priority r = p) (map plain acc)) [0, 1, 2, 3, 4])"
    using service_order_sorted[of "map plain acc", unfolded ts tiers_def] by blast
  show ?thesis using a b c by blast
qed

theorem dequeue_serves_tiers_by_timestamp_witness:
  "map (map_option request_id)
     (fst (dequeue_n 4 (fst (snd (enqueue_all [req ''A'' 2 10, req ''B'' 0 20, req ''C'' 2 5]
        (PriorityQueue_new 10, []))))))
   = [Some ''B'', Some ''C'', Some ''A'', None]"
  using dequeue_serves_tiers_by_timestamp
          [of "[req ''A'' 2 10, req ''B'' 0 20, req ''C'' 2 5]" 10 "[]"
              "fst (enqueue_all [req ''A'' 2 10, req ''B'' 0 20, req ''C'' 2 5] (PriorityQueue_new 10, []))"
              "fst (snd (enqueue_all [req ''A'' 2 10, req ''B'' 0 20, req ''C'' 2 5] (PriorityQueue_new 10, [])))"
              "snd (snd (enqueue_all [req ''A'' 2 10, req ''B'' 0 20, req ''C'' 2 5] (PriorityQueue_new 10, [])))"
              4]
  by (simp add: enqueue_all_def enqueue_step_def enqueue_def PriorityQueue_new_def tiers_def
      req_def sort_by_timestamp_def dequeue_def numeral_eq_Suc)

text \<open>
  The claim as stated fails: two requests of one tier, the second with the older
  timestamp, are both accepted and come out in the reverse of the call order.
\<close>

theorem enqueue_order_counterexample:
  "fst (enqueue_all [req ''A'' 2 10, req ''B'' 2 5] (PriorityQueue_new 10, []))
     = [req ''A'' 2 10, req ''B'' 2 5]
   \<and> map (map_option request_id)
       (fst (dequeue_n 2 (fst (snd (enqueue_all [req ''A'' 2 10, req ''B'' 2 5]
          (PriorityQueue_new 10, []))))))
     = [Some ''B'', Some ''A'']"
  by (simp add: enqueue_all_def enqueue_step_def enqueue_def PriorityQueue_new_def tiers_def
      req_def sort_by_timestamp_def dequeue_def numeral_eq_Suc)

section \<open>Buckets in the store\<close>

lemma getBucket_expired:
  "map_of (buckets s) b = Some bkt \<Longrightarrow> now > resetAt bkt \<Longrightarrow>
   getBucket now b s = (None, s\<lparr>buckets := AList.delete b (buckets s)\<rparr>)"
  by (simp add: getBucket_def)

lemma getBucket_live:
  "map_of (buckets s) b = Some bkt \<Longrightarrow> now \<le> resetAt bkt \<Longrightarrow> getBucket now b s = (Some bkt, s)"
  by (simp add: getBucket_def)

lemma getBucket_absent: "map_of (buckets s) b = None \<Longrightarrow> getBucket now b s = (None, s)"
  by (simp add: getBucket_def)

lemma lookup_setBucket: "map_of (buckets (setBucket now b bkt s)) b = Some (bkt\<lparr>lastUsed := now\<rparr>)"
  by (simp add: setBucket_def Let_def update_conv')

lemma manager_read_absent:
  "map_of (buckets s) b = None \<Longrightarrow>
   BucketManager_getBucket now b n w s = (fresh_bucket now b n w, setBucket now b (fresh_bucket now b n w) s)"
  by (simp add: BucketManager_getBucket_def getBucket_absent)

lemma manager_read_live:
  "map_of (buckets s) b = Some bkt \<Longrightarrow> now \<le> resetAt bkt \<Longrightarrow>
   BucketManager_getBucket now b n w s = (bkt, s)"
  by (simp add: BucketManager_getBucket_def getBucket_live)

lemma manager_read_expired:
  "map_of (buckets s) b = Some bkt \<Longrightarrow> now > resetAt bkt \<Longrightarrow>
   BucketManager_getBucket now b n w s =
     (fresh_bucket now b n w,
      setBucket now b (fresh_bucket now b n w) (s\<lparr>buckets := AList.delete b (buckets s)\<rparr>))"
  by (simp add: BucketManager_getBucket_def getBucket_expired)

text \<open>
  C4. A store read after the bucket's \<open>resetAt\<close> gives \<open>null\<close> and removes the bucket.
  The next read through the bucket manager, at any time and without a reset call, and
  likewise a manager read in place of the store read, gives a bucket as newly created:
  \<open>remaining\<close> is the full limit.
\<close>

theorem expired_bucket_is_absent:
  assumes "map_of (buckets s) b = Some bkt" and "now > resetAt bkt"
  shows "getBucket now b s = (None, s\<lparr>buckets := AList.delete b (buckets s)\<rparr>)
       \<and> map_of (buckets (snd (getBucket now b s))) b = None
       \<and> fst (BucketManager_getBucket now' b n w (snd (getBucket now b s))) = fresh_bucket now' b n w
       \<and> fst (BucketManager_getBucket now b n w s) = fresh_bucket now b n w
       \<and> bucket_remaining (fresh_bucket now' b n w) = bucket_limit (fresh_bucket now' b n w)"
proof -
  have g: "getBucket now b s = (None, s\<lparr>buckets := AList.delete b (buckets s)\<rparr>)"
    using assms by (rule getBucket_expired)
  have a: "map_of (buckets (snd (getBucket now b s))) b = None"
    by (simp add: g delete_conv')
  show ?thesis
    using g a manager_read_absent[OF a, of now' n w] manager_read_expired[OF assms, of n w]
    by (simp add: fresh_bucket_def)
qed

theorem expired_bucket_is_absent_witness:
  "map_of (buckets two_buckets) ''b2'' = Some (fresh_bucket 0 ''b2'' 1 3000)
   \<and> 3001 > resetAt (fresh_bucket 0 ''b2'' 1 3000)
   \<and> fst (getBucket 3001 ''b2'' two_buckets) = None
   \<and> bucket_remaining (fst (BucketManager_getBucket 3002 ''b2'' 5 5000
         (snd (getBucket 3001 ''b2'' two_buckets)))) = 5"
  using expired_bucket_is_absent
          [of two_buckets "''b2''" "fresh_bucket 0 ''b2'' 1 3000" 3001 3002 5 5000]
  by (simp add: two_buckets_def setBucket_def MemoryRateLimitStore_new_def fresh_bucket_def Let_def
      getBucket_def BucketManager_getBucket_def)

section \<open>Consuming tokens\<close>

lemma consume_live:
  "map_of (buckets s) b = Some bkt \<Longrightarrow> now \<le> resetAt bkt \<Longrightarrow> bucket_remaining bkt > 0 \<Longrightarrow>
   BucketManager_consumeRequest now b s
     = (True, setBucket now b (bkt\<lparr>bucket_remaining := bucket_remaining bkt - 1\<rparr>) s)"
  by (simp add: BucketManager_consumeRequest_def manager_read_live)

lemma consume_empty:
  "map_of (buckets s) b = Some bkt \<Longrightarrow> now \<le> resetAt bkt \<Longrightarrow> bucket_remaining bkt \<le> 0 \<Longrightarrow>
   BucketManager_consumeRequest now b s = (False, s)"
  by (simp add: BucketManager_consumeRequest_def manager_read_live)

lemma consume_expired:
  "map_of (buckets s) b = Some bkt \<Longrightarrow> now > resetAt bkt \<Longrightarrow>
   fst (BucketManager_consumeRequest now b s) = True"
  by (simp add: BucketManager_consumeRequest_def manager_read_expired fresh_bucket_def defaultLimit_def)

lemma consume_at_append:
  "consume_at (ts @ us) b s =
     (case consume_at ts b s of (r1, s1) \<Rightarrow> (case consume_at us b s1 of (r2, s2) \<Rightarrow> (r1 @ r2, s2)))"
  by (induction ts arbitrary: s) (simp_all add: split_beta)

lemma drain_bucket:
  "map_of (buckets s) b = Some bkt \<Longrightarrow> \<forall>t\<in>set ts. t \<le> resetAt bkt \<Longrightarrow>
   bucket_remaining bkt = int k \<Longrightarrow> length ts = k + j \<Longrightarrow>
   fst (consume_at ts b s) = replicate k True @ replicate j False \<and>
   (\<exists>bkt'. map_of (buckets (snd (consume_at ts b s))) b = Some bkt' \<and> resetAt bkt' = resetAt bkt
           \<and> bucket_remaining bkt' = 0)"
proof (induction ts arbitrary: s bkt k j)
  case Nil
  then show ?case by simp
next
  case (Cons t ts)
  have t: "t \<le> resetAt bkt" using Cons.prems(2) by simp
  show ?case
  proof (cases k)
    case 0
    then have c: "BucketManager_consumeRequest t b s = (False, s)"
      using consume_empty[OF Cons.prems(1) t] Cons.prems(3) by simp
    obtain j' where j: "j = Suc j'" using Cons.prems(4) 0 by (cases j) auto
    have "length ts = 0 + j'" using Cons.prems(4) 0 j by simp
    from Cons.IH[OF Cons.prems(1) _ _ this] Cons.prems(2,3) 0
    show ?thesis by (simp add: c j split_beta)
  next
    case (Suc k')
    let ?bkt = "bkt\<lparr>bucket_remaining := bucket_remaining bkt - 1\<rparr>"
    let ?s = "setBucket t b ?bkt s"
    have c: "BucketManager_consumeRequest t b s = (True, ?s)"
      using consume_live[OF Cons.prems(1) t] Cons.prems(3) Suc by simp
    have m: "map_of (buckets ?s) b = Some (?bkt\<lparr>lastUsed := t\<rparr>)" by (rule lookup_setBucket)
    have "length ts = k' + j" using Cons.prems(4) Suc by simp
    from Cons.IH[OF m _ _ this] Cons.prems(2,3) Suc
    show ?thesis by (simp add: c split_beta)
  qed
qed

text \<open>
  C2. For the bucket as the manager reads it at the time of the call (fetched, or created
  full when absent or expired): with a token left, \<open>consumeRequest\<close> returns true and
  stores the bucket with \<open>remaining\<close> one less, which is not negative; with none left it
  returns false and the store is the one it was given. A bucket created with limit 5 and
  a 5000 ms window at \<open>t0\<close> serves five calls made no later than \<open>t0 + 5000\<close>, refuses a
  sixth, and serves a call made after \<open>t0 + 5000\<close>.
\<close>

theorem consumeRequest_takes_one_token:
  "(case BucketManager_getBucket now b defaultLimit defaultResetAfter s of
      (bkt, s1) \<Rightarrow>
        if bucket_remaining bkt > 0 then
          fst (BucketManager_consumeRequest now b s) = True \<and>
          map_of (buckets (snd (BucketManager_consumeRequest now b s))) b
            = Some (bkt\<lparr>bucket_remaining := bucket_remaining bkt - 1, lastUsed := now\<rparr>) \<and>
          bucket_remaining bkt - 1 \<ge> 0
        else BucketManager_consumeRequest now b s = (False, s))
   \<and> (map_of (buckets s) b = None \<and> length ts = 6 \<and> (\<forall>t\<in>set ts. t \<le> t0 + 5000) \<and> t0 + 5000 < t7
        \<longrightarrow> fst (consume_at (ts @ [t7]) b (snd (BucketManager_getBucket t0 b 5 5000 s)))
              = [True, True, True, True, True, False, True])"
proof (intro conjI impI)
  show "case BucketManager_getBucket now b defaultLimit defaultResetAfter s of
      (bkt, s1) \<Rightarrow>
        if bucket_remaining bkt > 0 then
          fst (BucketManager_consumeRequest now b s) = True \<and>
          map_of (buckets (snd (BucketManager_consumeRequest now b s))) b
            = Some (bkt\<lparr>bucket_remaining := bucket_remaining bkt - 1, lastUsed := now\<rparr>) \<and>
          bucket_remaining bkt - 1 \<ge> 0
        else BucketManager_consumeRequest now b s = (False, s)"
  proof (cases "map_of (buckets s) b")
    case None
    then show ?thesis
      by (simp add: BucketManager_consumeRequest_def manager_read_absent lookup_setBucket
          fresh_bucket_def defaultLimit_def)
  next
    case (Some bkt)
    show ?thesis
    proof (cases "now \<le> resetAt bkt")
      case True
      then show ?thesis using Some
        by (simp add: BucketManager_consumeRequest_def manager_read_live lookup_setBucket)
    next
      case False
      then show ?thesis using Some
        by (simp add: BucketManager_consumeRequest_def manager_read_expired lookup_setBucket
            fresh_bucket_def defaultLimit_def)
    qed
  qed
next
  assume h: "map_of (buckets s) b = None \<and> length ts = 6 \<and> (\<forall>t\<in>set ts. t \<le> t0 + 5000) \<and> t0 + 5000 < t7"
  let ?f = "fresh_bucket t0 b 5 5000"
  let ?s0 = "snd (BucketManager_getBucket t0 b 5 5000 s)"
  have s0: "?s0 = setBucket t0 b ?f s" using h by (simp add: manager_read_absent)
  have m: "map_of (buckets ?s0) b = Some (?f\<lparr>lastUsed := t0\<rparr>)"
    unfolding s0 by (rule lookup_setBucket)
  have "fst (consume_at ts b ?s0) = replicate 5 True @ replicate 1 False \<and>
        (\<exists>bkt'. map_of (buckets (snd (consume_at ts b ?s0))) b = Some bkt'
           \<and> resetAt bkt' = resetAt (?f\<lparr>lastUsed := t0\<rparr>) \<and> bucket_remaining bkt' = 0)"
  proof (rule drain_bucket[OF m])
    show "\<forall>t\<in>set ts. t \<le> resetAt (?f\<lparr>lastUsed := t0\<rparr>)" using h by (simp add: fresh_bucket_def)
    show "bucket_remaining (?f\<lparr>lastUsed := t0\<rparr>) = int 5" by (simp add: fresh_bucket_def)
    show "length ts = 5 + 1" using h by simp
  qed
  then obtain bkt' where r: "fst (consume_at ts b ?s0) = [True, True, True, True, True, False]"
    and m': "map_of (buckets (snd (consume_at ts b ?s0))) b = Some bkt'"
    and e: "resetAt bkt' = t0 + 5000"
    by (auto simp: fresh_bucket_def numeral_eq_Suc)
  have "fst (BucketManager_consumeRequest t7 b (snd (consume_at ts b ?s0))) = True"
    using consume_expired[OF m'] e h by simp
  then show "fst (consume_at (ts @ [t7]) b ?s0) = [True, True, True, True, True, False, True]"
    using r by (simp add: consume_at_append split_beta)
qed

theorem consumeRequest_takes_one_token_witness:
  "map_of (buckets (MemoryRateLimitStore_new 0)) ''test-bucket'' = None
   \<and> fst (consume_at [0, 1, 2, 3, 4, 5, 5001] ''test-bucket''
         (snd (BucketManager_getBucket 0 ''test-bucket'' 5 5000 (MemoryRateLimitStore_new 0))))
     = [True, True, True, True, True, False, True]"
  using consumeRequest_takes_one_token
          [of 0 "''test-bucket''" "MemoryRateLimitStore_new 0" "[0, 1, 2, 3, 4, 5]" 0 5001]
  by (simp add: MemoryRateLimitStore_new_def)

section \<open>Export and import\<close>












text \<open>The operations of the store keep the keys of the map distinct.\<close>

lemma setBucket_distinct:
  "distinct (map fst (buckets s)) \<Longrightarrow> distinct (map fst (buckets (setBucket now b bkt s)))"
  by (simp add: setBucket_def Let_def distinct_update)

lemma deleteBucket_distinct:
  "distinct (map fst (buckets s)) \<Longrightarrow> distinct (map fst (buckets (deleteBucket b s)))"
  by (simp add: deleteBucket_def Let_def distinct_delete)

lemma getBucket_distinct:
  "distinct (map fst (buckets s)) \<Longrightarrow> distinct (map fst (buckets (snd (getBucket now b s))))"
  by (simp add: getBucket_def distinct_delete split: option.splits)




text \<open>
  Two more facts about the exported object. An id that is an array index is listed
  before the other ids, so the map can come back in another order than it had; and the
  assignment under the id \<open>__proto__\<close> creates no key, so a bucket with that id is not
  exported.
\<close>

lemma array_index_ids_come_first:
  "map fst (buckets (setBucket 0 ''7'' (fresh_bucket 0 ''7'' 5 5000)
                      (setBucket 0 ''b'' (fresh_bucket 0 ''b'' 5 5000)
                         (MemoryRateLimitStore_new 0)))) = [''b'', ''7'']
   \<and> map fst (buckets (importState
                 (exportState (setBucket 0 ''7'' (fresh_bucket 0 ''7'' 5 5000)
                                (setBucket 0 ''b'' (fresh_bucket 0 ''b'' 5 5000)
                                   (MemoryRateLimitStore_new 0)))) s0)) = [''7'', ''b'']"
  by (simp add: setBucket_def MemoryRateLimitStore_new_def fresh_bucket_def Let_def
      importState_def exportState_def object_assign_def comes_before_def
      is_array_index_def decimal_def digit_of_def digits.simps)

lemma proto_bucket_is_not_exported:
  "map fst (buckets proto_store) = [''__proto__'']
   \<and> exp_buckets (exportState proto_store) = []
   \<and> buckets (importState (exportState proto_store) proto_store) = []"
  by (simp add: proto_store_def setBucket_def MemoryRateLimitStore_new_def Let_def
      importState_def exportState_def object_assign_def)

section \<open>The global limit\<close>








section \<open>Shutdown and admission\<close>

lemma shutdown_twice: "shutdown now' (shutdown now st) = shutdown now st"
  by (cases st) (simp add: shutdown_def split_beta)

lemma shutdown_sets_flag: "isShutdown (fst (shutdown now st))"
  by (cases st) (simp add: shutdown_def split_beta)

lemma enqueue_after_shutdown:
  "isShutdown orc \<Longrightarrow> Orchestrator_enqueue bm pf t r (orc, ps) = (Failed OrchestratorShutdown, orc, ps)"
  by (simp add: Orchestrator_enqueue_def)

lemma extractUrlPattern_error: "extractUrlPattern pf u = Inl e \<Longrightarrow> e = InvalidURL"
  by (auto simp: extractUrlPattern_def split: option.splits if_splits)

lemma extractBucketId_error: "extractBucketIdFromRequest pf r = Inl e \<Longrightarrow> e = InvalidURL"
  by (auto simp: extractBucketIdFromRequest_def split: if_splits sum.splits dest: extractUrlPattern_error)

lemma enqueue_or_fail_outcome:
  "fst (enqueue_or_fail r (m, ps)) =
     (if totalSize (queue m) \<ge> maxSize (queue m) then Failed QueueFull
      else if map_of (queues (queue m)) (priority r) = None then Failed (InvalidPriority (priority r))
      else Queued (length ps))"
  by (simp add: enqueue_or_fail_def enqueue_def split: option.splits)

lemma isRateLimited_queue: "queue (snd (isRateLimited bm now b m)) = queue m"
  by (simp add: isRateLimited_def split_beta)

lemma execute_outcome:
  "fst (execute bm pf now r (m, ps)) =
     (case extractBucketIdFromRequest pf r of
        Inl e \<Rightarrow> Failed e
      | Inr b \<Rightarrow>
          if fst (isRateLimited bm now b m)
             \<or> \<not> fst (bm_consumeRequest bm now b (store (snd (isRateLimited bm now b m))))
          then fst (enqueue_or_fail (r\<lparr>bucketId := Some b\<rparr>) (m, ps))
          else Dispatched (r\<lparr>bucketId := Some b\<rparr>))"
proof (cases "extractBucketIdFromRequest pf r")
  case (Inl e)
  then show ?thesis by (simp add: execute_def)
next
  case (Inr b)
  have q: "queue (snd (isRateLimited bm now b m)) = queue m" by (rule isRateLimited_queue)
  show ?thesis
    using Inr q
    by (simp add: execute_def split_beta enqueue_or_fail_outcome Let_def)
qed

text \<open>
  C7 (as amended). A second \<open>shutdown\<close> changes nothing. After \<open>shutdown\<close> every
  \<open>enqueue\<close> fails with the shutdown error and leaves the state alone. Whenever
  \<open>enqueue\<close> fails on the way in, the error is the shutdown error, queue-full,
  invalid-priority, or the invalid-URL error of a request without bucket id whose URL
  cannot be parsed. Rate limits never make it fail: on a running orchestrator with room
  in the queue, for a request whose bucket id resolves and whose priority is a tier, a
  limited or exhausted bucket gives a pending queue promise, and otherwise the request
  goes to the transport.
\<close>

theorem shutdown_and_admission_errors:
  "shutdown now' (shutdown now st) = shutdown now st
   \<and> Orchestrator_enqueue bm pf t r (shutdown now st) = (Failed OrchestratorShutdown, shutdown now st)
   \<and> (fst (Orchestrator_enqueue bm pf t r (orc, ps)) = Failed e \<longrightarrow>
         e = OrchestratorShutdown \<or> e = QueueFull \<or> e = InvalidURL
         \<or> e = InvalidPriority (priority (with_defaults (config orc) r)))
   \<and> (\<not> isShutdown orc
        \<and> extractBucketIdFromRequest pf (with_defaults (config orc) r) = Inr b
        \<and> totalSize (queue (middleware orc)) < maxSize (queue (middleware orc))
        \<and> map_of (queues (queue (middleware orc))) (priority (with_defaults (config orc) r)) \<noteq> None
        \<longrightarrow> fst (Orchestrator_enqueue bm pf t r (orc, ps))
              = (if fst (isRateLimited bm t b (middleware orc))
                    \<or> \<not> fst (bm_consumeRequest bm t b (store (snd (isRateLimited bm t b (middleware orc)))))
                 then Queued (length ps)
                 else Dispatched ((with_defaults (config orc) r)\<lparr>bucketId := Some b\<rparr>)))"
proof (intro conjI impI)
  show "shutdown now' (shutdown now st) = shutdown now st" by (rule shutdown_twice)
next
  show "Orchestrator_enqueue bm pf t r (shutdown now st) = (Failed OrchestratorShutdown, shutdown now st)"
    using enqueue_after_shutdown[OF shutdown_sets_flag[of now st], of bm pf t r "snd (shutdown now st)"]
    by simp
next
  assume f: "fst (Orchestrator_enqueue bm pf t r (orc, ps)) = Failed e"
  let ?r = "with_defaults (config orc) r"
  show "e = OrchestratorShutdown \<or> e = QueueFull \<or> e = InvalidURL \<or> e = InvalidPriority (priority ?r)"
  proof (cases "isShutdown orc")
    case True
    then show ?thesis using f by (simp add: Orchestrator_enqueue_def)
  next
    case False
    then have x: "fst (execute bm pf t ?r (middleware orc, ps)) = Failed e"
      using f by (simp add: Orchestrator_enqueue_def split_beta)
    show ?thesis
    proof (cases "extractBucketIdFromRequest pf ?r")
      case (Inl e')
      then show ?thesis using x extractBucketId_error[OF Inl] by (simp add: execute_outcome)
    next
      case (Inr b)
      then show ?thesis using x
        by (auto simp: execute_outcome enqueue_or_fail_outcome split: if_splits)
    qed
  qed
next
  assume h: "\<not> isShutdown orc
        \<and> extractBucketIdFromRequest pf (with_defaults (config orc) r) = Inr b
        \<and> totalSize (queue (middleware orc)) < maxSize (queue (middleware orc))
        \<and> map_of (queues (queue (middleware orc))) (priority (with_defaults (config orc) r)) \<noteq> None"
  then show "fst (Orchestrator_enqueue bm pf t r (orc, ps))
              = (if fst (isRateLimited bm t b (middleware orc))
                    \<or> \<not> fst (bm_consumeRequest bm t b (store (snd (isRateLimited bm t b (middleware orc)))))
                 then Queued (length ps)
                 else Dispatched ((with_defaults (config orc) r)\<lparr>bucketId := Some b\<rparr>))"
    by (auto simp: Orchestrator_enqueue_def split_beta execute_outcome enqueue_or_fail_outcome)
qed

theorem shutdown_and_admission_errors_witness:
  "fst (Orchestrator_enqueue never_limited no_platform 10 (tagged_req 7) (limited_orchestrator, []))
     = Failed (InvalidPriority 7)
   \<and> fst (Orchestrator_enqueue never_limited no_platform 10 (tagged_req 2) (limited_orchestrator, []))
     = Queued 0
   \<and> fst (Orchestrator_enqueue never_limited no_platform 10 (tagged_req 2)
            (shutdown 5 (limited_orchestrator, []))) = Failed OrchestratorShutdown"
  using shutdown_and_admission_errors
          [of 5 5 "(limited_orchestrator, [])" never_limited no_platform 10 "tagged_req 2"
              limited_orchestrator "[]" OrchestratorShutdown "''bucketX''"]
        shutdown_and_admission_errors
          [of 5 5 "(limited_orchestrator, [])" never_limited no_platform 10 "tagged_req 7"
              limited_orchestrator "[]" "InvalidPriority 7" "''bucketX''"]
  by (simp add: limited_orchestrator_def handleRateLimit_def Orchestrator_new_def global_info_def
      Middleware_new_def PriorityQueue_new_def tiers_def maxQueueSize_def tagged_req_def req_def
      with_defaults_def no_config_def extractBucketIdFromRequest_def isRateLimited_def
      getGlobalLimit_def setGlobalLimit_def MemoryRateLimitStore_new_def default_requestTimeout_def
      Orchestrator_enqueue_def execute_def enqueue_or_fail_def enqueue_def split_beta Let_def)

text \<open>
  The claim as stated fails: a request that carries no bucket id and whose URL has the
  \<open>METHOD/path\<close> shape matches none of the route patterns, the \<open>URL\<close> constructor
  throws, and \<open>enqueue\<close> fails with an error that is none of the three.
\<close>

theorem enqueue_invalid_url_counterexample:
  "fst (Orchestrator_enqueue never_limited no_platform 0
          ((req ''typing'' 1 0)\<lparr>url := ''POST/channels/1/typing''\<rparr>)
          (Orchestrator_new 0 no_config, [])) = Failed InvalidURL"
  by (simp add: Orchestrator_enqueue_def Orchestrator_new_def execute_def req_def
      with_defaults_def no_config_def extractBucketIdFromRequest_def extractUrlPattern_def
      patterns_def startsWith_def is_digit_def split_beta Let_def default_requestTimeout_def)

section \<open>Settlement of queued promises\<close>

text \<open>
  The branch of the queue loop for a request that is still blocked: the turn settles no
  promise, and the entry it puts back names a promise created in this turn, not the one
  the request named before.
\<close>

lemma canExecuteRequest_queue: "queue (snd (canExecuteRequest bm now r m)) = queue m"
  by (simp add: canExecuteRequest_def split_beta isRateLimited_queue)

lemma blocked_turn_requeues_under_new_promise:
  assumes "mw_processing m"
    and "dequeue (queue m) = (Some r, q')"
    and "\<not> fst (canExecuteRequest bm now r (m\<lparr>queue := q'\<rparr>))"
    and "totalSize q' < maxSize q'"
    and "map_of (queues q') (priority r) = Some xs"
  shows "snd (processQueue_turn bm pf now tr (m, ps)) = ps @ [Pending]
       \<and> tier (queue (fst (processQueue_turn bm pf now tr (m, ps)))) (priority r)
           = sort_by_timestamp (xs @ [r\<lparr>settles := length ps\<rparr>])"
proof -
  let ?c = "canExecuteRequest bm now r (m\<lparr>queue := q'\<rparr>)"
  have q: "queue (snd ?c) = q'" using canExecuteRequest_queue[of bm now r "m\<lparr>queue := q'\<rparr>"] by simp
  have e: "enqueue r (q', ps)
      = (length ps,
         q'\<lparr>queues := AList.update (priority r) (sort_by_timestamp (xs @ [r\<lparr>settles := length ps\<rparr>])) (queues q'),
            totalSize := totalSize q' + 1\<rparr>,
         ps @ [Pending])"
    using assms(4,5) by (simp add: enqueue_def)
  show ?thesis
    using assms(1,2,3) q e
    by (simp add: processQueue_turn_def split_beta tier_def update_conv')
qed

text \<open>
  C5. The code at the failing input. A request is queued under a global limit and the
  caller holds promise 0. A turn of the queue loop finds it still blocked and re-queues
  it through \<open>enqueue\<close>, which gives the request the new promise 1. Promise 0 is then
  named by no queued request; \<open>shutdown\<close> rejects promise 1 and empties the queue, and
  promise 0 is still pending when the loop has stopped.
\<close>

theorem requeue_orphans_callers_promise:
  "(case Orchestrator_enqueue bm pf 10 (tagged_req 2) (limited_orchestrator, []) of
      (a, o2, ps2) \<Rightarrow>
        (case processQueue_turn bm pf 20 tr (middleware o2, ps2) of
           (m3, ps3) \<Rightarrow>
             (case shutdown 30 (o2\<lparr>middleware := m3\<rparr>, ps3) of
                (o4, ps4) \<Rightarrow>
                  a = Queued 0 \<and> ps2 = [Pending]
                  \<and> map settles (flat (queue (middleware o2))) = [0]
                  \<and> ps3 = [Pending, Pending]
                  \<and> map settles (flat (queue m3)) = [1]
                  \<and> ps4 = [Pending, Rejected QueueCleared]
                  \<and> flat (queue (middleware o4)) = []
                  \<and> \<not> mw_processing (middleware o4) \<and> isShutdown o4)))"
  by (simp add: limited_orchestrator_def handleRateLimit_def Orchestrator_new_def global_info_def
      Middleware_new_def PriorityQueue_new_def tiers_def maxQueueSize_def tagged_req_def req_def
      with_defaults_def no_config_def extractBucketIdFromRequest_def isRateLimited_def
      getGlobalLimit_def setGlobalLimit_def MemoryRateLimitStore_new_def default_requestTimeout_def
      Orchestrator_enqueue_def execute_def enqueue_or_fail_def enqueue_def split_beta Let_def
      processQueue_turn_def dequeue_def canExecuteRequest_def count_def incrementMetric_def
      sort_by_timestamp_def flat_def shutdown_def clearQueue_def clear_def stop_def reject_all_def
      settle_def destroy_def resetMetrics_def)

section \<open>Retry decisions\<close>

text \<open>
  C8. The code at the failing input. A 400 response is surfaced at once with the retry
  count untouched when its message is \<open>Invalid Form Body\<close>; the same response with a
  message that contains the text \<open>timeout\<close> is retried: the request is re-queued with
  its retry count raised to 1.
\<close>

theorem client_error_with_timeout_text_is_retried:
  "fst (executeRequest bm pf now (Responds (error_response 400 ''Invalid Form Body''))
          (req ''r'' 2 10) (Middleware_new 0, []))
     = Threw (HttpError 400 (Some ''Invalid Form Body''))
   \<and> retryCount (fst (snd (executeRequest bm pf now (Responds (error_response 400 ''Invalid Form Body''))
          (req ''r'' 2 10) (Middleware_new 0, [])))) = 0
   \<and> fst (executeRequest bm pf now (Responds (error_response 400 ''Cannot timeout this member''))
          (req ''r'' 2 10) (Middleware_new 0, []))
     = Requeued 0
   \<and> retryCount (fst (snd (executeRequest bm pf now (Responds (error_response 400 ''Cannot timeout this member''))
          (req ''r'' 2 10) (Middleware_new 0, [])))) = 1"
  by (simp add: executeRequest_def error_response_def extractRateLimitInfo_def extractBucketId_def
      catch_block_def shouldRetry_def retryRequest_def req_def Middleware_new_def
      PriorityQueue_new_def tiers_def maxQueueSize_def enqueue_def attached_def count_def
      incrementMetric_def show_int_def digits.simps startsWith_def Let_def split_beta
      sort_by_timestamp_def)

end
